theory Spec2Isabelle
  imports
    Complex_Main
    "HOL-Library.Char_ord"
    "HOL-Library.List_Lexorder"
    "HOL-Library.Multiset"
    "HOL-Library.Product_Lexorder"
begin

section \<open>Exceptions\<close>

text \<open>
  The Python exceptions that the modelled functions can raise. Each carries its message.
  A function that may raise returns \<open>error + 'a\<close>, with \<open>Inl\<close> for the exception.
\<close>

datatype error =
    is_ValueError: ValueError string
  | is_AttributeError: AttributeError string
  | is_AssertionError: AssertionError string
  | is_KeyError: KeyError string
  | is_TypeError: TypeError string
  | is_SyntaxError: SyntaxError string
  | is_ParseError: ParseError string

section \<open>svn.py: boolean coercion\<close>

text \<open>
  \<^verbatim>\<open>str.lower()\<close>. A \<open>string\<close> is a list of bytes; the twenty-six ASCII capitals are
  mapped to their small letters and every other byte is kept.
\<close>

definition lower_char :: "char \<Rightarrow> char" where
  "lower_char c =
     (case map_of (zip ''ABCDEFGHIJKLMNOPQRSTUVWXYZ'' ''abcdefghijklmnopqrstuvwxyz'') c of
        Some d \<Rightarrow> d
      | None \<Rightarrow> c)"

definition lower :: "string \<Rightarrow> string" where
  "lower s = map lower_char s"

text \<open>
  \<^verbatim>\<open>
  def to_bool(bool_str: str):
      bool_str_lc = bool_str.lower()
      if bool_str_lc in ("true", "1", "t"):
          return True
      if bool_str_lc in ("false", "0", "f", ""):
          return False
      raise ValueError(f"cannot interpret {bool_str} as a bool")
  \<close>
\<close>

definition to_bool :: "string \<Rightarrow> error + bool" where
  "to_bool bool_str =
     (let bool_str_lc = lower bool_str in
      if bool_str_lc \<in> set [''true'', ''1'', ''t''] then Inr True
      else if bool_str_lc \<in> set [''false'', ''0'', ''f'', ''''] then Inr False
      else Inl (ValueError (''cannot interpret '' @ bool_str @ '' as a bool'')))"

text \<open>
  In \<^verbatim>\<open>process_entry\<close> the argument of \<^verbatim>\<open>to_bool\<close> is read from the dictionary
  \<^verbatim>\<open>other\<close>, whose values are attribute strings or \<^verbatim>\<open>numpy.nan\<close>. The float
  \<^verbatim>\<open>nan\<close> has no method \<^verbatim>\<open>lower\<close>, so the first line of \<^verbatim>\<open>to_bool\<close> raises
  \<^verbatim>\<open>AttributeError\<close> on it (the message is written here without Python's quotation
  marks around \<open>float\<close> and \<open>lower\<close>).
\<close>

datatype attr = Str string | NaN

fun to_bool_value :: "attr \<Rightarrow> error + bool" where
  "to_bool_value (Str bool_str) = to_bool bool_str"
| "to_bool_value NaN =
     Inl (AttributeError ''float object has no attribute lower'')"

section \<open>svn.py: one log entry to rows\<close>

text \<open>
  An element of \<^verbatim>\<open>xml.etree.ElementTree\<close>: tag, attribute dictionary, text (absent
  when the element has no character data before its first child) and children in
  document order.
\<close>

datatype elem =
  Element (tag: string) (attrib: "(string \<times> string) list") (elem_text: "string option")
    (children: "elem list")

text \<open>\<^verbatim>\<open>str(err)\<close>: the message an exception carries.\<close>

fun str :: "error \<Rightarrow> string" where
  "str (ValueError m) = m"
| "str (AttributeError m) = m"
| "str (AssertionError m) = m"
| "str (KeyError m) = m"
| "str (TypeError m) = m"
| "str (SyntaxError m) = m"
| "str (ParseError m) = m"

text \<open>\<^verbatim>\<open>d[k]\<close> on a dictionary raises \<^verbatim>\<open>KeyError\<close> when the key is absent.\<close>

definition getitem :: "(string \<times> string) list \<Rightarrow> string \<Rightarrow> error + string" where
  "getitem d k = (case map_of d k of None \<Rightarrow> Inl (KeyError k) | Some v \<Rightarrow> Inr v)"

text \<open>
  \<^verbatim>\<open>elem.find("./sub")\<close>: the first child with that tag, or \<^verbatim>\<open>None\<close>. For a path
  of this shape the library call does not raise.
\<close>

definition etree_find :: "elem \<Rightarrow> string \<Rightarrow> error + elem option" where
  "etree_find e sub = Inr (List.find (\<lambda>c. tag c = sub) (children e))"

text \<open>\<^verbatim>\<open>elem.findall("*/path")\<close>: the grandchildren tagged \<open>path\<close>, in document order.\<close>

definition findall_paths :: "elem \<Rightarrow> elem list" where
  "findall_paths e = concat (map (\<lambda>c. filter (\<lambda>g. tag g = ''path'') (children c)) (children e))"

text \<open>
  \<^verbatim>\<open>s.replace(old, new)\<close>: every non-overlapping occurrence of \<open>old\<close>, found from the
  left, is replaced. With an empty \<open>old\<close> Python puts \<open>new\<close> before every character and
  at the end.
\<close>

function replace :: "string \<Rightarrow> string \<Rightarrow> string \<Rightarrow> string" where
  "replace s old new =
     (if old = [] then new @ concat (map (\<lambda>c. c # new) s)
      else if s = [] then []
      else if take (length old) s = old then new @ replace (drop (length old) s) old new
      else hd s # replace (tl s) old new)"
  by pat_completeness auto
termination
  by (relation "measure (\<lambda>(s, old, new). length s)") auto

text \<open>
  A generator's run: the rows it yielded, the warnings it logged, and the exception that
  ended it, if one did.
\<close>

type_synonym 'a generated = "'a list \<times> string list \<times> error option"

text \<open>
  \<^verbatim>\<open>
  def _extract(elem, sub, log_entry, on_error=None):
      try:
          subel = elem.find(f"./{sub}")
          if subel is not None:
              return subel.text
      except (AttributeError, SyntaxError) as err:
          log.warning("failed to retrieve %s in %s: %s", sub, log_entry, err)
          if on_error == "raise":
              raise
      return None
  \<close>
  The result is the list of warnings logged and the value returned or exception raised.
\<close>

definition svn_extract ::
  "elem \<Rightarrow> string \<Rightarrow> string \<Rightarrow> string option \<Rightarrow> string list \<times> (error + string option)"
where
  "svn_extract e sub log_entry on_error =
     (case etree_find e sub of
        Inr subel \<Rightarrow> ([], Inr (case subel of Some se \<Rightarrow> elem_text se | None \<Rightarrow> None))
      | Inl err \<Rightarrow>
          if is_AttributeError err \<or> is_SyntaxError err
          then ([''failed to retrieve '' @ sub @ '' in '' @ log_entry @ '': '' @ str err],
                if on_error = Some ''raise'' then Inl err else Inr None)
          else ([], Inl err))"

text \<open>
  The row type, with the fields that \<^verbatim>\<open>process_entry\<close> passes to \<^verbatim>\<open>scm.LogEntry\<close>
  (the named tuple declared in \<^verbatim>\<open>scm.py\<close> lists the first eleven). A date is an instant,
  in nanoseconds since the epoch, UTC. \<open>None\<close> in \<open>added\<close> and \<open>removed\<close> is
  \<^verbatim>\<open>numpy.nan\<close>.
\<close>

record LogEntry =
  revision :: string
  author :: "string option"
  date :: int
  textmods :: bool
  kind :: attr
  action :: attr
  propmods :: bool
  path :: string
  message :: "string option"
  added :: "int option"
  removed :: "int option"
  copyfromrev :: attr
  copyfrompath :: attr

text \<open>
  \<^verbatim>\<open>to_date(datestr) = parser.parse(datestr).replace(tzinfo=utc)\<close>. The parser of
  \<^verbatim>\<open>dateutil\<close> is a parameter: it returns the instant that the parsed wall-clock time
  denotes in UTC, or raises.
\<close>

definition to_date :: "(string \<Rightarrow> error + int) \<Rightarrow> string \<Rightarrow> error + int" where
  "to_date parse datestr = parse datestr"

definition and_then :: "error + 'a \<Rightarrow> ('a \<Rightarrow> error + 'b) \<Rightarrow> error + 'b" where
  "and_then r f = (case r of Inl e \<Rightarrow> Inl e | Inr v \<Rightarrow> f v)"

text \<open>
  \<^verbatim>\<open>
  try:
      other[sub] = path_elem.attrib[sub]
  except (AttributeError, SyntaxError, KeyError):
      other[sub] = np.nan
  \<close>
\<close>

definition other_sub :: "elem \<Rightarrow> string \<Rightarrow> error + attr" where
  "other_sub path_elem sub =
     (case getitem (attrib path_elem) sub of
        Inr v \<Rightarrow> Inr (Str v)
      | Inl err \<Rightarrow>
          if is_AttributeError err \<or> is_SyntaxError err \<or> is_KeyError err then Inr NaN
          else Inl err)"

text \<open>
  \<^verbatim>\<open>
  try:
      path_elem_text = path_elem.text
      assert path_elem_text is not None
      path = path_elem_text.replace(rel_url_slash, "")
  except (AttributeError, SyntaxError, ValueError) as err:
      msg = f"{err} processing rev {rev}"
      log.warning(msg)
      path = msg
  \<close>
  The failed assertion raises \<^verbatim>\<open>AssertionError\<close>, which the handler does not list.
\<close>

definition path_of :: "string \<Rightarrow> string \<Rightarrow> elem \<Rightarrow> string list \<times> (error + string)" where
  "path_of rev_v rel_url_slash path_elem =
     (case (case elem_text path_elem of
              None \<Rightarrow> Inl (AssertionError [])
            | Some path_elem_text \<Rightarrow> Inr (replace path_elem_text rel_url_slash [])) of
        Inr p \<Rightarrow> ([], Inr p)
      | Inl err \<Rightarrow>
          if is_AttributeError err \<or> is_SyntaxError err \<or> is_ValueError err
          then (let msg = str err @ '' processing rev '' @ rev_v in ([msg], Inr msg))
          else ([], Inl err))"

text \<open>
  The body of the loop over the path elements, after \<^verbatim>\<open>other\<close> is filled: the path, the
  assertion on the date, then the arguments of \<^verbatim>\<open>scm.LogEntry\<close> in the order they are
  evaluated.
\<close>

definition process_path ::
  "(string \<Rightarrow> error + int) \<Rightarrow> string \<Rightarrow> string option \<Rightarrow> string option \<Rightarrow> string option \<Rightarrow>
   string \<Rightarrow> elem \<Rightarrow> string list \<times> (error + LogEntry)"
where
  "process_path parse rev_v author_v date_v message_v rel_url_slash path_elem =
     (case and_then (other_sub path_elem ''text-mods'') (\<lambda>tm.
           and_then (other_sub path_elem ''kind'') (\<lambda>kd.
           and_then (other_sub path_elem ''action'') (\<lambda>ac.
           and_then (other_sub path_elem ''prop-mods'') (\<lambda>pm.
           and_then (other_sub path_elem ''copyfrom-rev'') (\<lambda>cr.
           and_then (other_sub path_elem ''copyfrom-path'') (\<lambda>cp.
             Inr (tm, kd, ac, pm, cr, cp))))))) of
        Inl err \<Rightarrow> ([], Inl err)
      | Inr (tm, kd, ac, pm, cr, cp) \<Rightarrow>
          (case path_of rev_v rel_url_slash path_elem of
             (ws, Inl err) \<Rightarrow> (ws, Inl err)
           | (ws, Inr p) \<Rightarrow>
               (ws,
                case date_v of
                  None \<Rightarrow> Inl (AssertionError ''expected datetime got None'')
                | Some d \<Rightarrow>
                    and_then (to_date parse d) (\<lambda>dt.
                    and_then (to_bool_value tm) (\<lambda>textmods_v.
                    and_then (to_bool_value pm) (\<lambda>propmods_v.
                      Inr \<lparr>revision = rev_v, author = author_v, date = dt,
                           textmods = textmods_v, kind = kd, action = ac,
                           propmods = propmods_v, path = p, message = message_v,
                           added = None, removed = None,
                           copyfromrev = cr, copyfrompath = cp\<rparr>))))))"

text \<open>
  The loop: each path element yields its row; the first exception ends the generator,
  and the rows yielded before it stay yielded.
\<close>

fun process_paths ::
  "(string \<Rightarrow> error + int) \<Rightarrow> string \<Rightarrow> string option \<Rightarrow> string option \<Rightarrow> string option \<Rightarrow>
   string \<Rightarrow> elem list \<Rightarrow> LogEntry generated"
where
  "process_paths parse rev_v author_v date_v message_v rel_url_slash [] = ([], [], None)"
| "process_paths parse rev_v author_v date_v message_v rel_url_slash (path_elem # rest) =
     (case process_path parse rev_v author_v date_v message_v rel_url_slash path_elem of
        (ws, Inl err) \<Rightarrow> ([], ws, Some err)
      | (ws, Inr entry) \<Rightarrow>
          (case process_paths parse rev_v author_v date_v message_v rel_url_slash rest of
             (rows, ws', r) \<Rightarrow> (entry # rows, ws @ ws', r)))"

text \<open>
  \<^verbatim>\<open>
  def process_entry(self, log_entry: str):
      elem = ET.fromstring(log_entry)
      rev = elem.attrib["revision"]
      author = self._extract(elem, "author", log_entry)
      date = self._extract(elem, "date", log_entry, "raise")
      message = self._extract(elem, "msg", log_entry)
      if message is not None:
          message = message.replace("
", " ")
      rel_url_slash = self.relative_url + "/"
      for path_elem in elem.findall("*/path"):
          ...
  \<close>
  The XML parser \<^verbatim>\<open>ET.fromstring\<close> and the date parser are parameters; \<open>relative_url\<close>
  is the value of the property \<^verbatim>\<open>self.relative_url\<close>, which is \<^verbatim>\<open>None\<close> when no
  URL was given and \<^verbatim>\<open>svn info\<close> reported none (then the concatenation raises
  \<^verbatim>\<open>TypeError\<close>).
\<close>

definition process_entry ::
  "(string \<Rightarrow> error + elem) \<Rightarrow> (string \<Rightarrow> error + int) \<Rightarrow> string option \<Rightarrow> string \<Rightarrow>
   LogEntry generated"
where
  "process_entry fromstring parse relative_url log_entry =
     (case fromstring log_entry of
        Inl err \<Rightarrow> ([], [], Some err)
      | Inr e \<Rightarrow>
     (case getitem (attrib e) ''revision'' of
        Inl err \<Rightarrow> ([], [], Some err)
      | Inr rev_v \<Rightarrow>
     (case svn_extract e ''author'' log_entry None of
        (w1, Inl err) \<Rightarrow> ([], w1, Some err)
      | (w1, Inr author_v) \<Rightarrow>
     (case svn_extract e ''date'' log_entry (Some ''raise'') of
        (w2, Inl err) \<Rightarrow> ([], w1 @ w2, Some err)
      | (w2, Inr date_v) \<Rightarrow>
     (case svn_extract e ''msg'' log_entry None of
        (w3, Inl err) \<Rightarrow> ([], w1 @ w2 @ w3, Some err)
      | (w3, Inr message0) \<Rightarrow>
          (let message_v = map_option (\<lambda>m. replace m [CHR 0x0A] '' '') message0 in
           case relative_url of
             None \<Rightarrow>
               ([], w1 @ w2 @ w3,
                Some (TypeError ''unsupported operand type(s) for +: NoneType and str''))
           | Some url \<Rightarrow>
               (let rel_url_slash = url @ ''/'' in
                case process_paths parse rev_v author_v date_v message_v rel_url_slash
                       (findall_paths e) of
                  (rows, ws, r) \<Rightarrow> (rows, w1 @ w2 @ w3 @ ws, r))))))))"

section \<open>svn.py: the stream of log entries\<close>




section \<open>core.py: the table operations of pandas\<close>

text \<open>
  A table is the list of its rows, in row order. The log table is a list of \<open>LogEntry\<close>
  rows; a column name given as an argument (\<^verbatim>\<open>by\<close>, \<^verbatim>\<open>on\<close>) is the function that
  reads that column from a row. The columns read below hold no missing value in a
  collected log (\<open>revision\<close>, \<open>path\<close> and \<open>date\<close> are always set by \<open>process_entry\<close>), so
  the rules of pandas for missing keys and values play no part. Floating-point results
  (\<open>age\<close>, \<open>coupling\<close>) are modelled by the exact quotient.
\<close>

text \<open>\<^verbatim>\<open>DataFrame.drop_duplicates()\<close>: the first occurrence of every row is kept.\<close>

fun drop_duplicates :: "'a list \<Rightarrow> 'a list" where
  "drop_duplicates [] = []"
| "drop_duplicates (x # xs) = x # drop_duplicates (filter (\<lambda>y. y \<noteq> x) xs)"

text \<open>
  \<^verbatim>\<open>groupby(key).count()\<close>: one row per key value, in ascending key order, with the
  number of rows of the group.
\<close>

definition groupby_count :: "('row \<Rightarrow> 'k::linorder) \<Rightarrow> 'row list \<Rightarrow> ('k \<times> nat) list" where
  "groupby_count key rows =
     map (\<lambda>k. (k, length (filter (\<lambda>r. key r = k) rows))) (sort (remdups (map key rows)))"

text \<open>\<^verbatim>\<open>groupby(key)[val].max()\<close>: one row per key value, in ascending key order.\<close>

definition groupby_max ::
  "('row \<Rightarrow> 'k::linorder) \<Rightarrow> ('row \<Rightarrow> 'v::linorder) \<Rightarrow> 'row list \<Rightarrow> ('k \<times> 'v) list"
where
  "groupby_max key val rows =
     map (\<lambda>k. (k, Max (set (map val (filter (\<lambda>r. key r = k) rows)))))
       (sort (remdups (map key rows)))"

text \<open>
  \<^verbatim>\<open>pd.merge(left, right, on=key)\<close>, an inner join: for every left row in order, its
  pairings with the right rows of the same key, in right order.
\<close>

definition merge_inner ::
  "('a \<Rightarrow> 'k) \<Rightarrow> ('b \<Rightarrow> 'k) \<Rightarrow> 'a list \<Rightarrow> 'b list \<Rightarrow> ('a \<times> 'b) list"
where
  "merge_inner kl kr left right =
     concat (map (\<lambda>l. map (\<lambda>r. (l, r)) (filter (\<lambda>r. kr r = kl l) right)) left)"

text \<open>
  \<^verbatim>\<open>pd.merge(left, right, how='outer')\<close>: every pairing of the inner join, every left
  row without a partner and every right row without a partner, each with its key; the
  missing side is \<open>None\<close>. Rows are put in ascending key order, as pandas documents for
  an outer join; the statements below are about the rows, not about their order.
\<close>

definition merge_outer ::
  "('a \<Rightarrow> 'k::linorder) \<Rightarrow> ('b \<Rightarrow> 'k) \<Rightarrow> 'a list \<Rightarrow> 'b list \<Rightarrow> ('k \<times> 'a option \<times> 'b option) list"
where
  "merge_outer kl kr left right =
     sort_key fst
       (concat (map (\<lambda>l. if filter (\<lambda>r. kr r = kl l) right = [] then [(kl l, Some l, None)]
                          else map (\<lambda>r. (kl l, Some l, Some r)) (filter (\<lambda>r. kr r = kl l) right))
                  left)
        @ map (\<lambda>r. (kr r, None, Some r)) (filter (\<lambda>r. kr r \<notin> kl ` set left) right))"

text \<open>
  \<^verbatim>\<open>Series.value_counts()\<close>: every distinct value with the number of its occurrences,
  most frequent first.
\<close>

definition value_counts :: "'k list \<Rightarrow> ('k \<times> nat) list" where
  "value_counts xs =
     sort_key (\<lambda>(k, c). - int c) (map (\<lambda>k. (k, count_list xs k)) (drop_duplicates xs))"

section \<open>core.py: the reports\<close>

text \<open>
  \<^verbatim>\<open>
  def get_mass_change_sets(log, min_changes):
      by_rev = log[['revision', 'path']].groupby('revision').count()
      by_rev.rename(columns={'path': 'path_count'}, inplace=True)
      by_rev.reset_index(inplace=True)
      massive = pd.merge(by_rev[by_rev['path_count'] > min_changes],
                         log[['revision', 'message', 'author']].drop_duplicates())
      return massive
  \<close>
  A row of the result is (revision, path_count, message, author).
\<close>

definition get_mass_change_sets ::
  "LogEntry list \<Rightarrow> int \<Rightarrow> (string \<times> nat \<times> string option \<times> string option) list"
where
  "get_mass_change_sets log_df min_changes =
     (let by_rev = groupby_count fst (map (\<lambda>e. (revision e, path e)) log_df);
          massive =
            merge_inner fst fst
              (filter (\<lambda>(r, path_count). min_changes < int path_count) by_rev)
              (drop_duplicates (map (\<lambda>e. (revision e, message e, author e)) log_df))
      in map (\<lambda>((r, path_count), (r', m, a)). (r, path_count, m, a)) massive)"

text \<open>
  \<^verbatim>\<open>
  def get_ages(data, by=None):
      if by is None:
          by = ['path']
      now = pd.to_datetime(internals.get_now(), utc=True)
      rv = data.groupby(by)['date'].max().reset_index()
      rv['age'] = (now - pd.to_datetime(rv['date'], utc=True))
      rv['age'] /= pd.Timedelta(1, unit='D')
      return rv.drop(columns=['date'])
  \<close>
  \<open>now\<close> is the instant that the one call of \<^verbatim>\<open>internals.get_now()\<close> returns. A row of
  the result is (key, age in days).
\<close>

definition ns_per_day :: int where
  "ns_per_day = 86400000000000"

definition get_ages :: "int \<Rightarrow> LogEntry list \<Rightarrow> (LogEntry \<Rightarrow> 'k::linorder) \<Rightarrow> ('k \<times> rat) list" where
  "get_ages now data by_col =
     (let rv = groupby_max by_col date data
      in map (\<lambda>(k, d). (k, of_int (now - d) / of_int ns_per_day)) rv)"

text \<open>
  \<^verbatim>\<open>
  def get_hot_spots(log, loc, by=None, count_one_change_per=None):
      if by is None:
          by = 'path'
      if count_one_change_per is None:
          count_one_change_per = ['revision']
      c_df = loc.copy()
      c_df = c_df.rename(columns={'code': 'lines'})
      columns = count_one_change_per + [by]
      ch_df = log[columns].drop_duplicates()[by]. \
          value_counts().to_frame('changes')
      df = pd.merge(c_df, ch_df, right_index=True, left_on=by, how='outer'). \
          fillna(0.0)
      return df
  \<close>
  A row of \<open>loc\<close> is (key, code, the other columns). A row of the result is
  (key, the other columns of \<open>loc\<close>, lines, changes); the other columns are \<open>None\<close> when
  \<^verbatim>\<open>fillna\<close> has set each of them to zero. \<open>fillna\<close> works on a row of the outer join
  (key, row of \<open>loc\<close> if any, row of the change counts if any).
\<close>

definition fillna ::
  "'k \<times> ('k \<times> int \<times> 'x) option \<times> ('k \<times> nat) option \<Rightarrow> 'k \<times> 'x option \<times> int \<times> int"
where
  "fillna row =
     (case row of (k, l, r) \<Rightarrow>
        (k,
         (case l of Some (k', lines, x) \<Rightarrow> Some x | None \<Rightarrow> None),
         (case l of Some (k', lines, x) \<Rightarrow> lines | None \<Rightarrow> 0),
         (case r of Some (k', changes) \<Rightarrow> int changes | None \<Rightarrow> 0)))"

definition get_hot_spots ::
  "LogEntry list \<Rightarrow> ('k::linorder \<times> int \<times> 'x) list \<Rightarrow> (LogEntry \<Rightarrow> 'k) \<Rightarrow> (LogEntry \<Rightarrow> 'c) \<Rightarrow>
   ('k \<times> 'x option \<times> int \<times> int) list"
where
  "get_hot_spots log_df loc by_col count_one_change_per =
     (let c_df = loc;
          ch_df = value_counts
                    (map snd (drop_duplicates (map (\<lambda>e. (count_one_change_per e, by_col e)) log_df)));
          df = map fillna (merge_outer fst fst c_df ch_df)
      in df)"

text \<open>
  \<^verbatim>\<open>
  def get_co_changes(log=None, by=None, on=None):
      if by is None:
          by = 'path'
      if on is None:
          on = 'revision'
      df = log[[on, by]].drop_duplicates()
      sj = pd.merge(df, df, on=on).\
          rename(columns={by + '_x': by, by + '_y': 'dependency'}).\
          groupby([by, 'dependency']).count().reset_index()
      result = pd.merge(sj[sj[by] == sj['dependency']][[by, on]],
                        sj[sj[by] != sj['dependency']], on=by). \
          rename(columns={on + '_x': 'changes', on + '_y': 'cochanges'})
      result['coupling'] = result['cochanges'] / result['changes']
      return result[[by, 'dependency', 'changes', 'cochanges', 'coupling']]. \
          sort_values(by='coupling', ascending=False)
  \<close>
  A row of the result is (primary, dependency, changes, cochanges, coupling). Rows of
  equal coupling keep the order they had before the sort; pandas leaves their order to
  the sorting algorithm.
\<close>

definition get_co_changes ::
  "LogEntry list \<Rightarrow> (LogEntry \<Rightarrow> 'b::linorder) \<Rightarrow> (LogEntry \<Rightarrow> 'o) \<Rightarrow>
   ('b \<times> 'b \<times> nat \<times> nat \<times> rat) list"
where
  "get_co_changes log_df by_col on_col =
     (let df = drop_duplicates (map (\<lambda>e. (on_col e, by_col e)) log_df);
          sj = groupby_count (\<lambda>((o1, p), (o2, q)). (p, q)) (merge_inner fst fst df df);
          result =
            map (\<lambda>((p, changes), ((p', q), cochanges)).
                   (p, q, changes, cochanges, of_nat cochanges / of_nat changes))
              (merge_inner fst (\<lambda>r. fst (fst r))
                 (map (\<lambda>((p, q), n). (p, n)) (filter (\<lambda>((p, q), n). p = q) sj))
                 (filter (\<lambda>((p, q), n). p \<noteq> q) sj))
      in sort_key (\<lambda>(p, q, changes, cochanges, coupling). - coupling) result)"

section \<open>core.py: the reports on a store of pandas objects\<close>

text \<open>
  To state what a report does to the tables it is given, the tables are objects in a
  store, and a table is what pandas holds: index, column names and cells. A cell is a
  string, an integer (also an instant or a duration, in nanoseconds), a float (as the
  exact number), a boolean, or missing.
\<close>

datatype cell = is_CStr: CStr string | CInt int | CRat rat | CBool bool | CNA

text \<open>
  A data frame: the names of its index levels (\<open>None\<close> for the unnamed level of a default
  index), the names of its columns, and per row the index cells and the column cells. A
  series is a frame of one column.
\<close>

record frame =
  index_names :: "string option list"
  columns :: "string list"
  body :: "(cell list \<times> cell list) list"

text \<open>The position of a column; a list of names raises \<^verbatim>\<open>KeyError\<close> at the first unknown one.\<close>

fun position :: "string list \<Rightarrow> string \<Rightarrow> nat option" where
  "position [] c = None"
| "position (n # ns) c = (if n = c then Some 0 else map_option Suc (position ns c))"

fun positions :: "string list \<Rightarrow> string list \<Rightarrow> error + nat list" where
  "positions names [] = Inr []"
| "positions names (c # cs) =
     (case position names c of
        None \<Rightarrow> Inl (KeyError c)
      | Some i \<Rightarrow> and_then (positions names cs) (\<lambda>js. Inr (i # js)))"

definition cell_at :: "cell list \<Rightarrow> nat \<Rightarrow> cell" where
  "cell_at cells i = (if i < length cells then cells ! i else CNA)"

text \<open>A new default index: the rows are numbered from 0.\<close>

definition range_index :: "cell list list \<Rightarrow> (cell list \<times> cell list) list" where
  "range_index rows = map (\<lambda>(i, cells). ([CInt (int i)], cells)) (enumerate 0 rows)"

text \<open>
  The order in which pandas sorts cells of one kind: strings by code point, numbers by
  value, missing cells last. Columns of a log hold cells of one kind; between a string
  and a number, which Python refuses to compare, the string is put first.
\<close>

fun cell_key :: "cell \<Rightarrow> nat \<times> string \<times> rat" where
  "cell_key (CStr s) = (0, s, 0)"
| "cell_key (CInt i) = (1, [], of_int i)"
| "cell_key (CRat q) = (1, [], q)"
| "cell_key (CBool b) = (1, [], if b then 1 else 0)"
| "cell_key CNA = (2, [], 0)"

text \<open>\<^verbatim>\<open>df[[c1, ..., cn]]\<close>: a new frame of the named columns, with the same index.\<close>

definition select_columns :: "string list \<Rightarrow> frame \<Rightarrow> error + frame" where
  "select_columns cs f =
     and_then (positions (columns f) cs) (\<lambda>js.
       Inr \<lparr>index_names = index_names f, columns = cs,
            body = map (\<lambda>(ix, cells). (ix, map (cell_at cells) js)) (body f)\<rparr>)"

text \<open>
  \<^verbatim>\<open>df[df[c] > k]\<close>: the rows whose cell is a number above \<open>k\<close>; a missing cell is not
  above anything, and a string in the column raises \<^verbatim>\<open>TypeError\<close>.
\<close>

fun cell_gt :: "cell \<Rightarrow> int \<Rightarrow> bool" where
  "cell_gt (CInt n) k = (k < n)"
| "cell_gt (CRat q) k = (of_int k < q)"
| "cell_gt (CBool b) k = (k < (if b then 1 else 0))"
| "cell_gt c k = False"

definition where_gt :: "string \<Rightarrow> int \<Rightarrow> frame \<Rightarrow> error + frame" where
  "where_gt c k f =
     (case position (columns f) c of
        None \<Rightarrow> Inl (KeyError c)
      | Some i \<Rightarrow>
          if list_ex (\<lambda>(ix, cells). is_CStr (cell_at cells i)) (body f)
          then Inl (TypeError ''> not supported between instances of str and int'')
          else Inr (f\<lparr>body := filter (\<lambda>(ix, cells). cell_gt (cell_at cells i) k) (body f)\<rparr>))"

text \<open>
  \<^verbatim>\<open>df[df[a] == df[b]]\<close> and \<^verbatim>\<open>df[df[a] != df[b]]\<close>; a missing cell equals nothing.
\<close>

definition cells_equal :: "cell \<Rightarrow> cell \<Rightarrow> bool" where
  "cells_equal x y = (x \<noteq> CNA \<and> cell_key x = cell_key y)"

definition where_same :: "string \<Rightarrow> string \<Rightarrow> frame \<Rightarrow> error + frame" where
  "where_same a b f =
     and_then (positions (columns f) [a, b]) (\<lambda>js.
       Inr (f\<lparr>body := filter (\<lambda>(ix, cells). cells_equal (cell_at cells (js ! 0)) (cell_at cells (js ! 1)))
                         (body f)\<rparr>))"

definition where_differ :: "string \<Rightarrow> string \<Rightarrow> frame \<Rightarrow> error + frame" where
  "where_differ a b f =
     and_then (positions (columns f) [a, b]) (\<lambda>js.
       Inr (f\<lparr>body := filter (\<lambda>(ix, cells). \<not> cells_equal (cell_at cells (js ! 0)) (cell_at cells (js ! 1)))
                         (body f)\<rparr>))"

text \<open>
  \<^verbatim>\<open>df.drop_duplicates()\<close>: the first row of every combination of column cells is kept,
  with its index.
\<close>

fun drop_duplicates_on :: "('a \<Rightarrow> 'k) \<Rightarrow> 'a list \<Rightarrow> 'a list" where
  "drop_duplicates_on key [] = []"
| "drop_duplicates_on key (x # xs) =
     x # drop_duplicates_on key (filter (\<lambda>y. key y \<noteq> key x) xs)"

definition drop_duplicates_frame :: "frame \<Rightarrow> frame" where
  "drop_duplicates_frame f = f\<lparr>body := drop_duplicates_on snd (body f)\<rparr>"

text \<open>
  \<^verbatim>\<open>df.groupby(keys).count()\<close>: the rows with a missing key are left out; one row per
  key combination, in ascending order, indexed by the keys; every other column holds the
  number of its cells in the group that are not missing.
\<close>

definition groupby_count_frame :: "string list \<Rightarrow> frame \<Rightarrow> error + frame" where
  "groupby_count_frame keys f =
     and_then (positions (columns f) keys) (\<lambda>ks.
     and_then (positions (columns f) (filter (\<lambda>c. c \<notin> set keys) (columns f))) (\<lambda>vs.
       (let rows = filter (\<lambda>cells. CNA \<notin> set (map (cell_at cells) ks)) (map snd (body f));
            groups = sort_key (map cell_key) (remdups (map (\<lambda>cells. map (cell_at cells) ks) rows))
        in Inr \<lparr>index_names = map Some keys,
                columns = filter (\<lambda>c. c \<notin> set keys) (columns f),
                body = map (\<lambda>g. (g, map (\<lambda>v. CInt (int (length (filter
                                     (\<lambda>cells. map (cell_at cells) ks = g \<and> cell_at cells v \<noteq> CNA)
                                     rows)))) vs))
                         groups\<rparr>)))"

text \<open>
  \<^verbatim>\<open>df.groupby(keys)[c].max()\<close>: as above, with the greatest cell of column \<open>c\<close> that is
  not missing, or a missing cell when the group has none.
\<close>

definition cell_max :: "cell list \<Rightarrow> cell" where
  "cell_max cells =
     foldr (\<lambda>c m. if c = CNA then m else if m = CNA then c
                   else if cell_key m \<le> cell_key c then c else m) cells CNA"

definition groupby_max_frame :: "string list \<Rightarrow> string \<Rightarrow> frame \<Rightarrow> error + frame" where
  "groupby_max_frame keys c f =
     and_then (positions (columns f) keys) (\<lambda>ks.
       (case position (columns f) c of
          None \<Rightarrow> Inl (KeyError c)
        | Some v \<Rightarrow>
            (let rows = filter (\<lambda>cells. CNA \<notin> set (map (cell_at cells) ks)) (map snd (body f));
                 groups = sort_key (map cell_key)
                            (remdups (map (\<lambda>cells. map (cell_at cells) ks) rows))
             in Inr \<lparr>index_names = map Some keys, columns = [c],
                     body = map (\<lambda>g. (g, [cell_max (map (\<lambda>cells. cell_at cells v)
                                          (filter (\<lambda>cells. map (cell_at cells) ks = g) rows))]))
                              groups\<rparr>)))"

text \<open>\<^verbatim>\<open>rename(columns={old: new, ...})\<close>; a name that is no column is ignored.\<close>

definition rename_columns :: "(string \<times> string) list \<Rightarrow> frame \<Rightarrow> frame" where
  "rename_columns mapping f =
     f\<lparr>columns := map (\<lambda>c. case map_of mapping c of Some n \<Rightarrow> n | None \<Rightarrow> c) (columns f)\<rparr>"

text \<open>
  \<^verbatim>\<open>reset_index()\<close>: the index levels become the first columns, an unnamed level under
  the name \<open>index\<close>, and the rows get a new default index; a name that is a column already
  raises \<^verbatim>\<open>ValueError\<close>.
\<close>

definition reset_index_frame :: "frame \<Rightarrow> error + frame" where
  "reset_index_frame f =
     (let names = map (\<lambda>n. case n of Some c \<Rightarrow> c | None \<Rightarrow> ''index'') (index_names f)
      in if list_ex (\<lambda>c. c \<in> set (columns f)) names
         then Inl (ValueError ''cannot insert a level, already exists'')
         else Inr \<lparr>index_names = [None], columns = names @ columns f,
                   body = range_index (map (\<lambda>(ix, cells). ix @ cells) (body f))\<rparr>)"

text \<open>
  \<^verbatim>\<open>df[name] = values\<close>, the values being computed row by row from the frame itself:
  the column is overwritten when it exists and appended otherwise.
\<close>

definition assign_column :: "string \<Rightarrow> (cell list \<Rightarrow> cell) \<Rightarrow> frame \<Rightarrow> frame" where
  "assign_column name g f =
     (case position (columns f) name of
        Some i \<Rightarrow> f\<lparr>body := map (\<lambda>(ix, cells). (ix, cells[i := g cells])) (body f)\<rparr>
      | None \<Rightarrow> f\<lparr>columns := columns f @ [name],
                   body := map (\<lambda>(ix, cells). (ix, cells @ [g cells])) (body f)\<rparr>)"

text \<open>\<^verbatim>\<open>rv['age'] = now - pd.to_datetime(rv['date'], utc=True)\<close>\<close>

definition set_age :: "int \<Rightarrow> frame \<Rightarrow> error + frame" where
  "set_age now f =
     (case position (columns f) ''date'' of
        None \<Rightarrow> Inl (KeyError ''date'')
      | Some i \<Rightarrow>
          Inr (assign_column ''age''
                 (\<lambda>cells. case cell_at cells i of CInt d \<Rightarrow> CInt (now - d) | _ \<Rightarrow> CNA) f))"

text \<open>\<^verbatim>\<open>rv['age'] /= pd.Timedelta(1, unit='D')\<close>\<close>

definition age_in_days :: "frame \<Rightarrow> error + frame" where
  "age_in_days f =
     (case position (columns f) ''age'' of
        None \<Rightarrow> Inl (KeyError ''age'')
      | Some i \<Rightarrow>
          Inr (assign_column ''age''
                 (\<lambda>cells. case cell_at cells i of
                     CInt delta \<Rightarrow> CRat (of_int delta / of_int ns_per_day)
                   | _ \<Rightarrow> CNA) f))"

text \<open>
  \<^verbatim>\<open>result['coupling'] = result['cochanges'] / result['changes']\<close>; a quotient by zero
  is no finite number and is written as a missing cell.
\<close>

definition set_coupling :: "frame \<Rightarrow> error + frame" where
  "set_coupling f =
     and_then (positions (columns f) [''cochanges'', ''changes'']) (\<lambda>js.
       Inr (assign_column ''coupling''
              (\<lambda>cells. case (cell_at cells (js ! 0), cell_at cells (js ! 1)) of
                  (CInt m, CInt n) \<Rightarrow> if n = 0 then CNA else CRat (of_int m / of_int n)
                | _ \<Rightarrow> CNA) f))"

text \<open>\<^verbatim>\<open>df.drop(columns=[...])\<close>: a new frame without the named columns.\<close>

definition drop_columns :: "string list \<Rightarrow> frame \<Rightarrow> error + frame" where
  "drop_columns cs f =
     and_then (positions (columns f) cs) (\<lambda>js.
       select_columns (filter (\<lambda>c. c \<notin> set cs) (columns f)) f)"

text \<open>
  \<^verbatim>\<open>pd.merge(left, right, on=keys)\<close>, an inner join: for every left row in order, its
  pairings with the right rows of the same key cells, in right order. The result has the
  columns of the left frame, then the columns of the right frame that are no keys, and a
  new default index; a name of both frames that is no key gets the suffixes \<open>_x\<close> and
  \<open>_y\<close>. Without \<^verbatim>\<open>on\<close> the keys are the columns common to both frames.
\<close>

definition merge_on :: "string list \<Rightarrow> frame \<Rightarrow> frame \<Rightarrow> error + frame" where
  "merge_on keys left right =
     and_then (positions (columns left) keys) (\<lambda>lk.
     and_then (positions (columns right) keys) (\<lambda>rk.
     and_then (positions (columns right) (filter (\<lambda>c. c \<notin> set keys) (columns right))) (\<lambda>rv.
       Inr \<lparr>index_names = [None],
            columns =
              map (\<lambda>c. if c \<in> set (columns right) \<and> c \<notin> set keys then c @ ''_x'' else c)
                (columns left) @
              map (\<lambda>c. if c \<in> set (columns left) then c @ ''_y'' else c)
                (filter (\<lambda>c. c \<notin> set keys) (columns right)),
            body =
              range_index
                (concat (map (\<lambda>l. map (\<lambda>r. l @ map (cell_at r) rv)
                                     (filter (\<lambda>r. map (cell_at r) rk = map (cell_at l) lk)
                                        (map snd (body right))))
                           (map snd (body left))))\<rparr>)))"

definition merge_common :: "frame \<Rightarrow> frame \<Rightarrow> error + frame" where
  "merge_common left right =
     (let keys = filter (\<lambda>c. c \<in> set (columns right)) (columns left)
      in if keys = [] then Inl (ValueError ''No common columns to perform merge on'')
         else merge_on keys left right)"

text \<open>
  \<^verbatim>\<open>pd.merge(left, right, left_on=c, right_index=True, how='outer')\<close>: every pairing of
  a left row with the right rows whose index is its cell in column \<open>c\<close>; every left row
  without a partner, the right columns missing; every right row without a partner, the
  left columns missing but for \<open>c\<close>, which takes the right index. A row keeps the index
  of its left row and has a missing index when it has none. Rows are put in ascending
  order of the key, as pandas documents for an outer join.
\<close>

definition merge_left_on_right_index :: "string \<Rightarrow> frame \<Rightarrow> frame \<Rightarrow> error + frame" where
  "merge_left_on_right_index c left right =
     (case position (columns left) c of
        None \<Rightarrow> Inl (KeyError c)
      | Some k \<Rightarrow>
          Inr \<lparr>index_names = index_names left,
               columns =
                 map (\<lambda>x. if x \<in> set (columns right) then x @ ''_x'' else x) (columns left) @
                 map (\<lambda>x. if x \<in> set (columns left) then x @ ''_y'' else x) (columns right),
               body =
                 sort_key (\<lambda>(ix, cells). cell_key (cell_at cells k))
                   (concat (map (\<lambda>(lix, l).
                              if filter (\<lambda>(rix, r). rix = [cell_at l k]) (body right) = []
                              then [(lix, l @ map (\<lambda>x. CNA) (columns right))]
                              else map (\<lambda>(rix, r). (lix, l @ r))
                                     (filter (\<lambda>(rix, r). rix = [cell_at l k]) (body right)))
                            (body left)) @
                    map (\<lambda>(rix, r).
                           (map (\<lambda>n. CNA) (index_names left),
                            (map (\<lambda>x. CNA) (columns left))[k := cell_at rix 0] @ r))
                      (filter (\<lambda>(rix, r). list_all (\<lambda>(lix, l). rix \<noteq> [cell_at l k]) (body left))
                         (body right)))\<rparr>)"

text \<open>\<^verbatim>\<open>df.fillna(v)\<close>: a new frame in which every missing column cell is \<open>v\<close>.\<close>

definition fillna_frame :: "cell \<Rightarrow> frame \<Rightarrow> frame" where
  "fillna_frame v f =
     f\<lparr>body := map (\<lambda>(ix, cells). (ix, map (\<lambda>c. if c = CNA then v else c) cells)) (body f)\<rparr>"

text \<open>
  \<^verbatim>\<open>df[c].value_counts().to_frame(name)\<close>: the distinct cells of column \<open>c\<close> that are
  not missing as the index, most frequent first, and their numbers of occurrences as the
  one column.
\<close>

definition value_counts_frame :: "string \<Rightarrow> string \<Rightarrow> frame \<Rightarrow> error + frame" where
  "value_counts_frame c name f =
     (case position (columns f) c of
        None \<Rightarrow> Inl (KeyError c)
      | Some i \<Rightarrow>
          (let cells = filter (\<lambda>x. x \<noteq> CNA) (map (\<lambda>(ix, cells). cell_at cells i) (body f))
           in Inr \<lparr>index_names = [Some c], columns = [name],
                   body = sort_key (\<lambda>(ix, counts). map (\<lambda>n. - snd (snd (cell_key n))) counts)
                            (map (\<lambda>x. ([x], [CInt (int (count_list cells x))]))
                               (drop_duplicates_on id cells))\<rparr>))"

text \<open>
  \<^verbatim>\<open>df.sort_values(by=c, ascending=False)\<close>: a new frame, greatest cell first, rows of
  equal cells in their former order, missing cells last.
\<close>

definition sort_values_descending :: "string \<Rightarrow> frame \<Rightarrow> error + frame" where
  "sort_values_descending c f =
     (case position (columns f) c of
        None \<Rightarrow> Inl (KeyError c)
      | Some i \<Rightarrow>
          Inr (f\<lparr>body :=
                   rev (sort_key (\<lambda>(ix, cells). cell_key (cell_at cells i))
                          (rev (filter (\<lambda>(ix, cells). cell_at cells i \<noteq> CNA) (body f)))) @
                   filter (\<lambda>(ix, cells). cell_at cells i = CNA) (body f)\<rparr>))"

text \<open>
  The store is the list of the objects alive, an object's address being its position.
  An action runs on a store and gives the store after it with a value or an exception.
  A pandas call that returns a new object appends a frame; a call with
  \<^verbatim>\<open>inplace=True\<close> and an assignment to a column replace the frame at the address of
  the object they are applied to.
\<close>

type_synonym addr = nat

type_synonym 'a action = "frame list \<Rightarrow> frame list \<times> (error + 'a)"

definition seq :: "'a action \<Rightarrow> ('a \<Rightarrow> 'b action) \<Rightarrow> 'b action" where
  "seq m f s = (case m s of (s', Inl err) \<Rightarrow> (s', Inl err) | (s', Inr a) \<Rightarrow> f a s')"

definition frame_at :: "addr \<Rightarrow> frame action" where
  "frame_at a s = (s, Inr (s ! a))"

definition new_object :: "error + frame \<Rightarrow> addr action" where
  "new_object r s = (case r of Inl err \<Rightarrow> (s, Inl err) | Inr f \<Rightarrow> (s @ [f], Inr (length s)))"

definition in_place :: "addr \<Rightarrow> (frame \<Rightarrow> error + frame) \<Rightarrow> unit action" where
  "in_place a g s = (case g (s ! a) of Inl err \<Rightarrow> (s, Inl err) | Inr f \<Rightarrow> (s[a := f], Inr ()))"

text \<open>
  The four reports, statement by statement: a name bound in the source is the address of
  its object here. The tables that an expression builds and hands on without a name are
  part of the expression of the object they end in.
\<close>

definition get_mass_change_sets_call :: "addr \<Rightarrow> int \<Rightarrow> addr action" where
  "get_mass_change_sets_call log_a min_changes =
     seq (frame_at log_a) (\<lambda>log_df.
     seq (new_object (and_then (select_columns [''revision'', ''path''] log_df)
                        (groupby_count_frame [''revision'']))) (\<lambda>by_rev.
     seq (in_place by_rev (\<lambda>f. Inr (rename_columns [(''path'', ''path_count'')] f))) (\<lambda>u1.
     seq (in_place by_rev reset_index_frame) (\<lambda>u2.
     seq (frame_at by_rev) (\<lambda>by_rev_df.
     new_object
       (and_then (where_gt ''path_count'' min_changes by_rev_df) (\<lambda>left.
        and_then (select_columns [''revision'', ''message'', ''author''] log_df) (\<lambda>right.
        merge_common left (drop_duplicates_frame right)))))))))"

definition get_ages_call :: "int \<Rightarrow> addr \<Rightarrow> string list \<Rightarrow> addr action" where
  "get_ages_call now data_a by_cols =
     seq (frame_at data_a) (\<lambda>data.
     seq (new_object (and_then (groupby_max_frame by_cols ''date'' data) reset_index_frame)) (\<lambda>rv.
     seq (in_place rv (set_age now)) (\<lambda>u1.
     seq (in_place rv age_in_days) (\<lambda>u2.
     seq (frame_at rv) (\<lambda>rv_df.
     new_object (drop_columns [''date''] rv_df))))))"

definition get_hot_spots_call :: "addr \<Rightarrow> addr \<Rightarrow> string \<Rightarrow> string list \<Rightarrow> addr action" where
  "get_hot_spots_call log_a loc_a by_col count_one_change_per =
     seq (frame_at loc_a) (\<lambda>loc.
     seq (new_object (Inr loc)) (\<lambda>c_df_copy.
     seq (frame_at c_df_copy) (\<lambda>copied.
     seq (new_object (Inr (rename_columns [(''code'', ''lines'')] copied))) (\<lambda>c_df.
     seq (frame_at log_a) (\<lambda>log_df.
     seq (new_object
            (and_then (select_columns (count_one_change_per @ [by_col]) log_df) (\<lambda>t.
             value_counts_frame by_col ''changes'' (drop_duplicates_frame t)))) (\<lambda>ch_df.
     seq (frame_at c_df) (\<lambda>c_df_v.
     seq (frame_at ch_df) (\<lambda>ch_df_v.
     new_object
       (and_then (merge_left_on_right_index by_col c_df_v ch_df_v) (\<lambda>merged.
        Inr (fillna_frame (CRat 0) merged)))))))))))"

definition get_co_changes_call :: "addr \<Rightarrow> string \<Rightarrow> string \<Rightarrow> addr action" where
  "get_co_changes_call log_a by_col on_col =
     seq (frame_at log_a) (\<lambda>log_df.
     seq (new_object (and_then (select_columns [on_col, by_col] log_df) (\<lambda>t.
                      Inr (drop_duplicates_frame t)))) (\<lambda>df.
     seq (frame_at df) (\<lambda>df_v.
     seq (new_object
            (and_then (merge_on [on_col] df_v df_v) (\<lambda>joined.
             and_then (groupby_count_frame [by_col, ''dependency'']
                         (rename_columns [(by_col @ ''_x'', by_col), (by_col @ ''_y'', ''dependency'')]
                            joined))
               reset_index_frame))) (\<lambda>sj.
     seq (frame_at sj) (\<lambda>sj_v.
     seq (new_object
            (and_then (where_same by_col ''dependency'' sj_v) (\<lambda>same.
             and_then (select_columns [by_col, on_col] same) (\<lambda>left.
             and_then (where_differ by_col ''dependency'' sj_v) (\<lambda>right.
             and_then (merge_on [by_col] left right) (\<lambda>merged.
             Inr (rename_columns [(on_col @ ''_x'', ''changes''), (on_col @ ''_y'', ''cochanges'')]
                    merged))))))) (\<lambda>result.
     seq (in_place result set_coupling) (\<lambda>u.
     seq (frame_at result) (\<lambda>result_v.
     new_object
       (and_then (select_columns [by_col, ''dependency'', ''changes'', ''cochanges'', ''coupling'']
                    result_v)
          (sort_values_descending ''coupling''))))))))))"

section \<open>Fixtures for the reports\<close>

text \<open>A log row of the given revision and path; the other fields are the same in all.\<close>

definition log_row :: "string \<Rightarrow> string \<Rightarrow> LogEntry" where
  "log_row r p =
     \<lparr>revision = r, author = Some ''bob'', date = 1546300800000000000, textmods = True,
      kind = Str ''file'', action = Str ''M'', propmods = False, path = p,
      message = Some ''fix'', added = None, removed = None,
      copyfromrev = NaN, copyfrompath = NaN\<rparr>"

text \<open>Revision 1 touches a, b, c; revision 2 touches a, b; revision 3 touches c.\<close>

definition scenario_log :: "LogEntry list" where
  "scenario_log =
     [log_row ''1'' ''a'', log_row ''1'' ''b'', log_row ''1'' ''c'',
      log_row ''2'' ''a'', log_row ''2'' ''b'', log_row ''3'' ''c'']"

text \<open>Revision 1 lists the path a twice.\<close>

definition dup_log :: "LogEntry list" where
  "dup_log = [log_row ''1'' ''a'', log_row ''1'' ''a'']"

text \<open>Revision 1 touches a and b; the two rows carry different messages.\<close>

definition two_message_log :: "LogEntry list" where
  "two_message_log = [log_row ''1'' ''a'', (log_row ''1'' ''b'')\<lparr>message := Some ''other''\<rparr>]"

text \<open>A log row of the given path and date, and a log in two row orders.\<close>

definition dated_row :: "string \<Rightarrow> int \<Rightarrow> LogEntry" where
  "dated_row p d = (log_row ''1'' p)\<lparr>date := d\<rparr>"

definition ages_log :: "LogEntry list" where
  "ages_log =
     [dated_row ''a'' ns_per_day, dated_row ''b'' (2 * ns_per_day), dated_row ''a'' (3 * ns_per_day)]"

definition ages_log_reordered :: "LogEntry list" where
  "ages_log_reordered =
     [dated_row ''a'' (3 * ns_per_day), dated_row ''a'' ns_per_day, dated_row ''b'' (2 * ns_per_day)]"

text \<open>A size table: a has 10 lines, z has 5; z is not in the scenario log.\<close>

definition scenario_loc :: "(string \<times> int \<times> string) list" where
  "scenario_loc = [(''a'', 10, ''Python''), (''z'', 5, ''Python'')]"

text \<open>A log table as a frame: one column per field of the rows, and a default index.\<close>

definition attr_cell :: "attr \<Rightarrow> cell" where
  "attr_cell a = (case a of Str s \<Rightarrow> CStr s | NaN \<Rightarrow> CNA)"

definition option_cell :: "('a \<Rightarrow> cell) \<Rightarrow> 'a option \<Rightarrow> cell" where
  "option_cell f v = (case v of Some x \<Rightarrow> f x | None \<Rightarrow> CNA)"

definition log_cells :: "LogEntry \<Rightarrow> cell list" where
  "log_cells e =
     [CStr (revision e), option_cell CStr (author e), CInt (date e), CBool (textmods e),
      attr_cell (kind e), attr_cell (action e), CBool (propmods e), CStr (path e),
      option_cell CStr (message e), option_cell CInt (added e), option_cell CInt (removed e),
      attr_cell (copyfromrev e), attr_cell (copyfrompath e)]"

definition log_frame :: "LogEntry list \<Rightarrow> frame" where
  "log_frame log_df =
     \<lparr>index_names = [None],
      columns = [''revision'', ''author'', ''date'', ''textmods'', ''kind'', ''action'',
                 ''propmods'', ''path'', ''message'', ''added'', ''removed'',
                 ''copyfromrev'', ''copyfrompath''],
      body = range_index (map log_cells log_df)\<rparr>"

text \<open>The size table of the scenario as a frame with the columns language, path, code.\<close>

definition loc_frame :: frame where
  "loc_frame =
     \<lparr>index_names = [None], columns = [''language'', ''path'', ''code''],
      body = range_index (map (\<lambda>(p, c, l). [CStr l, CStr p, CInt c]) scenario_loc)\<rparr>"

text \<open>A store with the scenario log at address 0 and the size table at address 1.\<close>

definition scenario_store :: "frame list" where
  "scenario_store = [log_frame scenario_log, loc_frame]"

section \<open>Fixtures for the collector\<close>

text \<open>
  Stand-ins for the two library parsers, and four parsed log entries. \<open>fromstring_stub e\<close>
  parses every text to the element \<open>e\<close>; \<open>parse_stub\<close> reads every date as the instant
  2019-01-01T00:00:00Z.
\<close>

definition fromstring_stub :: "elem \<Rightarrow> string \<Rightarrow> error + elem" where
  "fromstring_stub e log_entry = Inr e"

definition parse_stub :: "string \<Rightarrow> error + int" where
  "parse_stub datestr = Inr 1546300800000000000"

definition path_a :: elem where
  "path_a =
     Element ''path''
       [(''kind'', ''file''), (''action'', ''M''), (''text-mods'', ''true''),
        (''prop-mods'', ''false'')]
       (Some ''/trunk/a.py'') []"

text \<open>A path element with its four attributes and no text.\<close>

definition path_textless :: elem where
  "path_textless =
     Element ''path''
       [(''kind'', ''file''), (''action'', ''M''), (''text-mods'', ''true''),
        (''prop-mods'', ''false'')]
       None []"

text \<open>A path element without the attribute \<open>prop-mods\<close>.\<close>

definition path_no_propmods :: elem where
  "path_no_propmods =
     Element ''path''
       [(''kind'', ''file''), (''action'', ''M''), (''text-mods'', ''true'')]
       (Some ''/trunk/b.py'') []"

text \<open>Revision 7: author, date, message; a textless path element, then \<open>path_a\<close>.\<close>

definition entry_textless_path :: elem where
  "entry_textless_path =
     Element ''logentry'' [(''revision'', ''7'')] None
       [Element ''author'' [] (Some ''bob'') [],
        Element ''date'' [] (Some ''2019-01-01T00:00:00.000000Z'') [],
        Element ''paths'' [] None [path_textless, path_a],
        Element ''msg'' [] (Some ''fix'') []]"

text \<open>Revision 8: author, date, message; one path element without \<open>prop-mods\<close>.\<close>

definition entry_no_propmods :: elem where
  "entry_no_propmods =
     Element ''logentry'' [(''revision'', ''8'')] None
       [Element ''author'' [] (Some ''bob'') [],
        Element ''date'' [] (Some ''2019-01-01T00:00:00.000000Z'') [],
        Element ''paths'' [] None [path_no_propmods],
        Element ''msg'' [] (Some ''fix'') []]"







section \<open>Properties of the boolean coercion\<close>

lemma lower_simps:
  "lower [] = []"
  "lower (c # cs) = lower_char c # lower cs"
  by (simp_all add: lower_def)

text \<open>
  Claim C4. A string whose lower-case form is one of \<open>true\<close>, \<open>1\<close>, \<open>t\<close> is coerced to
  true; one whose lower-case form is one of \<open>false\<close>, \<open>0\<close>, \<open>f\<close> or the empty string is
  coerced to false; every other string raises a \<open>ValueError\<close> whose message quotes the
  string as it was given. In particular \<open>T\<close>, \<open>True\<close> and \<open>TRUE\<close> give true and \<open>no\<close>
  raises.
\<close>

theorem to_bool_spec:
  "(lower s \<in> {''true'', ''1'', ''t''} \<longrightarrow> to_bool s = Inr True) \<and>
   (lower s \<in> {''false'', ''0'', ''f'', ''''} \<longrightarrow> to_bool s = Inr False) \<and>
   (lower s \<notin> {''true'', ''1'', ''t'', ''false'', ''0'', ''f'', ''''} \<longrightarrow>
      to_bool s = Inl (ValueError (''cannot interpret '' @ s @ '' as a bool''))) \<and>
   to_bool ''T'' = Inr True \<and> to_bool ''True'' = Inr True \<and> to_bool ''TRUE'' = Inr True \<and>
   to_bool ''no'' = Inl (ValueError ''cannot interpret no as a bool'')"
  by (auto simp: to_bool_def Let_def lower_simps lower_char_def)

theorem to_bool_spec_witness:
  "lower ''tRuE'' \<in> {''true'', ''1'', ''t''} \<and> to_bool ''tRuE'' = Inr True \<and>
   lower ''F'' \<in> {''false'', ''0'', ''f'', ''''} \<and> to_bool ''F'' = Inr False \<and>
   lower ''yes'' \<notin> {''true'', ''1'', ''t'', ''false'', ''0'', ''f'', ''''} \<and>
   to_bool ''yes'' = Inl (ValueError ''cannot interpret yes as a bool'')"
  using to_bool_spec [of "''tRuE''"] to_bool_spec [of "''F''"] to_bool_spec [of "''yes''"]
  by (simp add: lower_simps lower_char_def)

section \<open>Properties of the conversion of one log entry\<close>

lemma other_sub_eq:
  "other_sub p sub = Inr (case map_of (attrib p) sub of None \<Rightarrow> NaN | Some v \<Rightarrow> Str v)"
  by (simp add: other_sub_def getitem_def split: option.splits)

lemma svn_extract_eq:
  "svn_extract e sub log_entry on_error =
     ([], Inr (case List.find (\<lambda>c. tag c = sub) (children e) of
                 Some se \<Rightarrow> elem_text se
               | None \<Rightarrow> None))"
  by (simp add: svn_extract_def etree_find_def)

lemma path_of_no_text:
  "elem_text p = None \<Longrightarrow> path_of rev_v u p = ([], Inl (AssertionError []))"
  by (simp add: path_of_def)

lemma path_of_text:
  "elem_text p = Some t \<Longrightarrow> path_of rev_v u p = ([], Inr (replace t u []))"
  by (simp add: path_of_def)

lemma process_path_logs_nothing:
  "fst (process_path parse rev_v a d m u p) = []"
  by (cases "elem_text p")
    (simp_all add: process_path_def other_sub_eq and_then_def path_of_no_text path_of_text)

lemma process_path_no_text:
  "elem_text p = None \<Longrightarrow> process_path parse rev_v a d m u p = ([], Inl (AssertionError []))"
  by (simp add: process_path_def other_sub_eq and_then_def path_of_no_text)


lemma process_path_no_propmods:
  "map_of (attrib p) ''prop-mods'' = None \<Longrightarrow> isl (snd (process_path parse rev_v a d m u p))"
  by (cases "elem_text p")
    (auto simp add: process_path_def other_sub_eq and_then_def path_of_no_text path_of_text
      to_date_def split: option.splits sum.splits)

lemma process_paths_logs_nothing:
  "fst (snd (process_paths parse rev_v a d m u ps)) = []"
proof (induction ps)
  case Nil
  then show ?case by simp
next
  case (Cons p ps)
  obtain ws r where pp: "process_path parse rev_v a d m u p = (ws, r)"
    by (cases "process_path parse rev_v a d m u p")
  with process_path_logs_nothing [of parse rev_v a d m u p] have "ws = []" by simp
  with pp Cons show ?case
    by (cases r; cases "process_paths parse rev_v a d m u ps") auto
qed

text \<open>
  A path element whose conversion raises ends the generator: the rows yielded are rows
  of elements before it, and none is yielded for it or for the elements after it.
\<close>

lemma process_paths_abort:
  assumes "isl (snd (process_path parse rev_v a d m u p))"
  shows "snd (snd (process_paths parse rev_v a d m u (ps @ p # qs))) \<noteq> None \<and>
         length (fst (process_paths parse rev_v a d m u (ps @ p # qs))) \<le> length ps"
proof (induction ps)
  case Nil
  obtain ws r where pp: "process_path parse rev_v a d m u p = (ws, r)"
    by (cases "process_path parse rev_v a d m u p")
  with assms show ?case by (cases r) auto
next
  case (Cons x ps)
  obtain ws r where pp: "process_path parse rev_v a d m u x = (ws, r)"
    by (cases "process_path parse rev_v a d m u x")
  with Cons show ?case
    by (cases r; cases "process_paths parse rev_v a d m u (ps @ p # qs)") auto
qed


text \<open>
  The entry as a whole, once the text is parsed: the three sub-element lookups log
  nothing and do not raise, so what is left is the revision attribute, the relative URL
  and the loop.
\<close>

lemma process_entry_parsed:
  assumes "fromstring log_entry = Inr e"
  shows "process_entry fromstring parse relative_url log_entry =
     (case getitem (attrib e) ''revision'' of
        Inl err \<Rightarrow> ([], [], Some err)
      | Inr rev_v \<Rightarrow>
          (case relative_url of
             None \<Rightarrow>
               ([], [], Some (TypeError ''unsupported operand type(s) for +: NoneType and str''))
           | Some url \<Rightarrow>
               process_paths parse rev_v
                 (case List.find (\<lambda>c. tag c = ''author'') (children e) of
                    Some se \<Rightarrow> elem_text se | None \<Rightarrow> None)
                 (case List.find (\<lambda>c. tag c = ''date'') (children e) of
                    Some se \<Rightarrow> elem_text se | None \<Rightarrow> None)
                 (map_option (\<lambda>m. replace m [CHR 0x0A] '' '')
                    (case List.find (\<lambda>c. tag c = ''msg'') (children e) of
                       Some se \<Rightarrow> elem_text se | None \<Rightarrow> None))
                 (url @ ''/'') (findall_paths e)))"
  using assms
  by (simp add: process_entry_def svn_extract_eq Let_def split: sum.splits option.splits prod.splits)

lemma process_entry_abort:
  assumes "fromstring log_entry = Inr e"
    and "findall_paths e = ps @ p # qs"
    and "\<And>rev_v a d m u. isl (snd (process_path parse rev_v a d m u p))"
  shows "snd (snd (process_entry fromstring parse relative_url log_entry)) \<noteq> None \<and>
         length (fst (process_entry fromstring parse relative_url log_entry)) \<le> length ps \<and>
         fst (snd (process_entry fromstring parse relative_url log_entry)) = []"
proof (cases "getitem (attrib e) ''revision''")
  case (Inl err)
  with assms(1) show ?thesis by (simp add: process_entry_parsed)
next
  case (Inr rev_v)
  show ?thesis
  proof (cases relative_url)
    case None
    with Inr assms(1) show ?thesis by (simp add: process_entry_parsed)
  next
    case (Some url)
    with Inr assms(1,2) process_paths_abort [OF assms(3)] process_paths_logs_nothing
    show ?thesis by (simp add: process_entry_parsed)
  qed
qed

text \<open>
  A path element without text: whatever the entry, the generator ends with an exception,
  yields rows only for path elements that precede the textless one, and logs no warning.
  No row with a placeholder path is produced and the later path elements are not
  processed.
\<close>

lemma process_entry_textless_path:
  assumes "fromstring log_entry = Inr e"
    and "findall_paths e = ps @ p # qs"
    and "elem_text p = None"
  shows "snd (snd (process_entry fromstring parse relative_url log_entry)) \<noteq> None \<and>
         length (fst (process_entry fromstring parse relative_url log_entry)) \<le> length ps \<and>
         fst (snd (process_entry fromstring parse relative_url log_entry)) = []"
  using assms(1,2)
  by (rule process_entry_abort) (simp add: process_path_no_text assms(3))

text \<open>
  Claim C5, on the entry of revision 7, whose date is present and whose first path
  element has no text. The claim asks for a warning, a row with a placeholder path and
  the row of the second path element. The code raises \<open>AssertionError\<close> at the first path
  element: no row is yielded, nothing is logged, and the second path element is never
  reached.
\<close>

theorem process_entry_textless_path_run:
  "process_entry (fromstring_stub entry_textless_path) parse_stub (Some ''/trunk'')
     ''<logentry revision=7>'' = ([], [], Some (AssertionError []))"
  by (simp add: process_entry_def fromstring_stub_def entry_textless_path_def path_textless_def
      path_a_def getitem_def svn_extract_def etree_find_def findall_paths_def process_path_def
      other_sub_def and_then_def path_of_def)

text \<open>
  A path element without the attribute \<open>prop-mods\<close>: whatever the entry, the generator
  ends with an exception and yields rows only for path elements that precede it.
\<close>

lemma process_entry_absent_propmods:
  assumes "fromstring log_entry = Inr e"
    and "findall_paths e = ps @ p # qs"
    and "map_of (attrib p) ''prop-mods'' = None"
  shows "snd (snd (process_entry fromstring parse relative_url log_entry)) \<noteq> None \<and>
         length (fst (process_entry fromstring parse relative_url log_entry)) \<le> length ps \<and>
         fst (snd (process_entry fromstring parse relative_url log_entry)) = []"
  using assms(1,2)
  by (rule process_entry_abort) (simp add: process_path_no_propmods assms(3))

text \<open>
  Claim C7, on the entry of revision 8, whose only path element has text and the
  attributes \<open>kind\<close>, \<open>action\<close> and \<open>text-mods\<close> but not \<open>prop-mods\<close>. The claim asks for a
  row whose \<open>propmods\<close> is false or unknown. The code stores \<open>nan\<close> for the absent
  attribute and then passes it to \<open>to_bool\<close>, which raises \<open>AttributeError\<close>: no row is
  yielded.
\<close>

theorem process_entry_absent_propmods_run:
  "process_entry (fromstring_stub entry_no_propmods) parse_stub (Some ''/trunk'')
     ''<logentry revision=8>'' =
   ([], [], Some (AttributeError ''float object has no attribute lower''))"
  by (simp add: process_entry_def fromstring_stub_def entry_no_propmods_def
      path_no_propmods_def getitem_def svn_extract_def etree_find_def findall_paths_def
      process_path_def other_sub_def and_then_def path_of_def to_date_def parse_stub_def
      to_bool_def lower_simps lower_char_def)










section \<open>Properties of the table operations\<close>

lemmas string_le = less_char_def less_eq_char_def

lemma set_drop_duplicates: "set (drop_duplicates xs) = set xs"
  by (induction xs rule: drop_duplicates.induct) auto

lemma distinct_drop_duplicates: "distinct (drop_duplicates xs)"
  by (induction xs rule: drop_duplicates.induct) (auto simp: set_drop_duplicates)

text \<open>
  In a table without repeated (f, g) pairs, the rows of one f value are as many as
  their distinct g values.
\<close>

lemma length_filter_distinct_key:
  assumes "distinct (map (\<lambda>e. (f e, g e)) xs)"
  shows "length (filter (\<lambda>e. f e = r) xs) = card (g ` {e \<in> set xs. f e = r})"
proof -
  let ?ys = "filter (\<lambda>e. f e = r) xs"
  from assms have d: "distinct (map (\<lambda>e. (f e, g e)) ?ys)"
    by (rule distinct_map_filter)
  then have "distinct (map g ?ys)"
    by (auto simp: distinct_map inj_on_def)
  then have "card (set (map g ?ys)) = length (map g ?ys)"
    by (rule distinct_card)
  moreover have "set (map g ?ys) = g ` {e \<in> set xs. f e = r}"
    by auto
  ultimately show ?thesis by simp
qed

lemma set_groupby_count:
  "set (groupby_count key rows) =
     {(k, n). k \<in> key ` set rows \<and> n = length (filter (\<lambda>r. key r = k) rows)}"
  by (auto simp: groupby_count_def)

lemma distinct_groupby_count: "distinct (map fst (groupby_count key rows))"
  by (simp add: groupby_count_def comp_def)

lemma set_merge_inner:
  "set (merge_inner kl kr left right) = {(a, b). a \<in> set left \<and> b \<in> set right \<and> kr b = kl a}"
  by (auto simp: merge_inner_def)

lemma distinct_merge_inner:
  "distinct left \<Longrightarrow> distinct right \<Longrightarrow> distinct (merge_inner kl kr left right)"
  by (induction left) (auto simp: merge_inner_def distinct_map inj_on_def)

lemma length_filter_merge_inner:
  "length (filter P (merge_inner kl kr left right)) =
     sum_list (map (\<lambda>l. length (filter (\<lambda>r. kr r = kl l \<and> P (l, r)) right)) left)"
  by (induction left) (simp_all add: merge_inner_def filter_map comp_def conj_commute)

lemma length_filter_eq_distinct:
  assumes "distinct xs"
  shows "length (filter (\<lambda>r. r = x) xs) = (if x \<in> set xs then 1 else 0)"
proof -
  from assms have "length (filter (\<lambda>r. r = x) xs) = card ({r. r = x} \<inter> set xs)"
    by (rule distinct_length_filter)
  also have "{r. r = x} \<inter> set xs = (if x \<in> set xs then {x} else {})" by auto
  finally show ?thesis by simp
qed

lemma set_outer_left_rows:
  "set (if filter (\<lambda>r. kr r = kl l) right = [] then [(kl l, Some l, None)]
        else map (\<lambda>r. (kl l, Some l, Some r)) (filter (\<lambda>r. kr r = kl l) right)) =
     {(kl l, Some l, Some b) | b. b \<in> set right \<and> kr b = kl l} \<union>
     {row. row = (kl l, Some l, None) \<and> kl l \<notin> kr ` set right}"
proof (cases "filter (\<lambda>r. kr r = kl l) right = []")
  case True
  then have "\<forall>b\<in>set right. kr b \<noteq> kl l" by (simp add: filter_empty_conv)
  then have "kl l \<notin> kr ` set right" by force
  with True show ?thesis by force
next
  case False
  then obtain b where "b \<in> set right" "kr b = kl l"
    by (auto simp: filter_empty_conv)
  then have "kl l \<in> kr ` set right" by force
  with False show ?thesis by auto
qed

lemma set_merge_outer:
  "set (merge_outer kl kr left right) =
     {(kl a, Some a, Some b) | a b. a \<in> set left \<and> b \<in> set right \<and> kr b = kl a} \<union>
     {(kl a, Some a, None) | a. a \<in> set left \<and> kl a \<notin> kr ` set right} \<union>
     {(kr b, None, Some b) | b. b \<in> set right \<and> kr b \<notin> kl ` set left}"
  (is "?L = ?A \<union> ?B \<union> ?C")
proof -
  have "?L = (\<Union>l\<in>set left.
       {(kl l, Some l, Some b) | b. b \<in> set right \<and> kr b = kl l} \<union>
       {row. row = (kl l, Some l, None) \<and> kl l \<notin> kr ` set right}) \<union> ?C"
    unfolding merge_outer_def
    by (simp only: set_sort set_append set_concat set_map image_image set_outer_left_rows) auto
  also have "\<dots> = ?A \<union> ?B \<union> ?C" by blast
  finally show ?thesis .
qed

lemma set_value_counts:
  "set (value_counts xs) = {(k, count_list xs k) | k. k \<in> set xs}"
  by (auto simp: value_counts_def set_drop_duplicates)

section \<open>Properties of the mass change sets\<close>

text \<open>
  The rows of the result, for any log: one for every (revision, message, author)
  combination of the log whose revision has more than \<open>k\<close> rows; \<open>path_count\<close> is the
  number of rows of the revision.
\<close>

lemma set_get_mass_change_sets:
  "set (get_mass_change_sets log_df k) =
     {(r, c, m, a). (r, m, a) \<in> (\<lambda>e. (revision e, message e, author e)) ` set log_df \<and>
                    c = length (filter (\<lambda>e. revision e = r) log_df) \<and> k < int c}"
  apply (auto simp: get_mass_change_sets_def Let_def set_merge_inner set_groupby_count
      set_drop_duplicates filter_map comp_def image_iff)
  subgoal for x xa by (rule bexI [of _ xa]) auto
  done

lemma distinct_get_mass_change_sets: "distinct (get_mass_change_sets log_df k)"
proof -
  have "distinct (filter (\<lambda>(r, path_count). k < int path_count)
           (groupby_count fst (map (\<lambda>e. (revision e, path e)) log_df)))"
    using distinct_groupby_count [of fst "map (\<lambda>e. (revision e, path e)) log_df"]
    by (simp add: distinct_map)
  then show ?thesis
    by (auto simp: get_mass_change_sets_def Let_def distinct_map inj_on_def set_merge_inner
        distinct_merge_inner distinct_drop_duplicates)
qed

lemma one_row_per_revision:
  assumes "inj_on fst ((\<lambda>e. (revision e, message e, author e)) ` set log_df)"
  shows "distinct (map fst (get_mass_change_sets log_df k))"
proof -
  have "inj_on fst (set (get_mass_change_sets log_df k))"
  proof (rule inj_onI)
    fix x y
    assume x: "x \<in> set (get_mass_change_sets log_df k)"
      and y: "y \<in> set (get_mass_change_sets log_df k)" and eq: "fst x = fst y"
    obtain r c m a where xv: "x = (r, c, m, a)" by (cases x)
    obtain r' c' m' a' where yv: "y = (r', c', m', a')" by (cases y)
    from x xv have x1: "(r, m, a) \<in> (\<lambda>e. (revision e, message e, author e)) ` set log_df"
      and x2: "c = length (filter (\<lambda>e. revision e = r) log_df)"
      by (simp_all add: set_get_mass_change_sets)
    from y yv have y1: "(r', m', a') \<in> (\<lambda>e. (revision e, message e, author e)) ` set log_df"
      and y2: "c' = length (filter (\<lambda>e. revision e = r') log_df)"
      by (simp_all add: set_get_mass_change_sets)
    from eq xv yv have rr: "r = r'" by simp
    from rr have "fst (r, m, a) = fst (r', m', a')" by simp
    with assms have "(r, m, a) = (r', m', a')"
      using x1 y1 by (rule inj_onD)
    with x2 y2 xv yv show "x = y" by simp
  qed
  with distinct_get_mass_change_sets show ?thesis
    by (simp add: distinct_map)
qed

text \<open>
  Claim C1 as stated fails on two logs. In the first, revision 1 lists the one path a
  twice: its number of distinct paths is 1, yet with threshold 1 the revision is
  returned, with \<open>path_count\<close> 2. In the second, the two rows of revision 1 carry
  different messages, and the revision is returned in two rows.
\<close>

theorem get_mass_change_sets_counterexample:
  "get_mass_change_sets dup_log 1 = [(''1'', 2, Some ''fix'', Some ''bob'')] \<and>
   map revision dup_log = [''1'', ''1''] \<and> card (path ` set dup_log) = 1 \<and>
   map fst (get_mass_change_sets two_message_log 1) = [''1'', ''1'']"
  by (simp add: get_mass_change_sets_def groupby_count_def merge_inner_def dup_log_def
      two_message_log_def log_row_def string_le)

text \<open>
  Claim C1, amended. For every log table in which no (revision, path) pair is repeated,
  the result has exactly one row for every (revision, message, author) combination of
  the log whose revision has more than \<open>k\<close> distinct paths, and no other row;
  \<open>path_count\<close> is that number of distinct paths. When every revision of the log has one
  message and one author, that is one row per qualifying revision.
\<close>

theorem get_mass_change_sets_spec:
  assumes "distinct (map (\<lambda>e. (revision e, path e)) log_df)"
  shows "set (get_mass_change_sets log_df k) =
           {(r, c, m, a). (r, m, a) \<in> (\<lambda>e. (revision e, message e, author e)) ` set log_df \<and>
                          c = card (path ` {e \<in> set log_df. revision e = r}) \<and> k < int c} \<and>
         distinct (get_mass_change_sets log_df k) \<and>
         (inj_on fst ((\<lambda>e. (revision e, message e, author e)) ` set log_df) \<longrightarrow>
            distinct (map fst (get_mass_change_sets log_df k)))"
  using length_filter_distinct_key [OF assms]
  by (simp add: set_get_mass_change_sets distinct_get_mass_change_sets one_row_per_revision)

theorem get_mass_change_sets_spec_witness:
  "distinct (map (\<lambda>e. (revision e, path e)) scenario_log) \<and>
   inj_on fst ((\<lambda>e. (revision e, message e, author e)) ` set scenario_log) \<and>
   get_mass_change_sets scenario_log 2 = [(''1'', 3, Some ''fix'', Some ''bob'')] \<and>
   card (path ` {e \<in> set scenario_log. revision e = ''1''}) = 3 \<and>
   distinct (map fst (get_mass_change_sets scenario_log 2))"
proof -
  have d: "distinct (map (\<lambda>e. (revision e, path e)) scenario_log)"
    by (simp add: scenario_log_def log_row_def)
  have i: "inj_on fst ((\<lambda>e. (revision e, message e, author e)) ` set scenario_log)"
    by (simp add: scenario_log_def log_row_def)
  have e: "get_mass_change_sets scenario_log 2 = [(''1'', 3, Some ''fix'', Some ''bob'')]"
    by (simp add: get_mass_change_sets_def groupby_count_def merge_inner_def scenario_log_def
        log_row_def string_le)
  note spec = get_mass_change_sets_spec [OF d, of 2]
  from spec have eq: "set (get_mass_change_sets scenario_log 2) =
      {(r, c, m, a). (r, m, a) \<in> (\<lambda>e. (revision e, message e, author e)) ` set scenario_log \<and>
                     c = card (path ` {e \<in> set scenario_log. revision e = r}) \<and> 2 < int c}"
    by (rule conjunct1)
  have "(''1'', 3, Some ''fix'', Some ''bob'') \<in> set (get_mass_change_sets scenario_log 2)"
    by (simp add: e)
  then have "(''1'', 3, Some ''fix'', Some ''bob'') \<in>
      {(r, c, m, a). (r, m, a) \<in> (\<lambda>e. (revision e, message e, author e)) ` set scenario_log \<and>
                     c = card (path ` {e \<in> set scenario_log. revision e = r}) \<and> 2 < int c}"
    by (simp only: eq)
  then have c: "card (path ` {e \<in> set scenario_log. revision e = ''1''}) = 3"
    by simp
  from spec i have "distinct (map fst (get_mass_change_sets scenario_log 2))"
    by blast
  with d i e c show ?thesis by simp
qed

section \<open>Properties of the ages\<close>

lemma groupby_max_set:
  "groupby_max key val rows =
     map (\<lambda>k. (k, Max (val ` {r \<in> set rows. key r = k}))) (sorted_list_of_set (key ` set rows))"
proof -
  have "sort (remdups (map key rows)) = sorted_list_of_set (key ` set rows)"
    by (simp add: sorted_list_of_set_sort_remdups [symmetric])
  moreover have "\<And>k. set (map val (filter (\<lambda>r. key r = k) rows)) = val ` {r \<in> set rows. key r = k}"
    by auto
  ultimately show ?thesis by (simp add: groupby_max_def)
qed

lemma get_ages_set:
  "get_ages now data by_col =
     map (\<lambda>k. (k, of_int (now - Max (date ` {r \<in> set data. by_col r = k})) / of_int ns_per_day))
       (sorted_list_of_set (by_col ` set data))"
  by (simp add: get_ages_def groupby_max_set comp_def)

text \<open>
  Claim C8. A permutation of the rows of the input leaves the result of \<open>get_ages\<close>
  unchanged; when every date of the input is at most \<open>now\<close>, every age of the result is
  non-negative; and the result has one row per group, in key order, whose age is
  \<open>now\<close> minus the latest date of the group, in days, with the one \<open>now\<close> of the call.
\<close>

theorem get_ages_spec:
  "(mset data' = mset data \<longrightarrow> get_ages now data' by_col = get_ages now data by_col) \<and>
   ((\<forall>r\<in>set data. date r \<le> now) \<longrightarrow> (\<forall>(k, age) \<in> set (get_ages now data by_col). 0 \<le> age)) \<and>
   get_ages now data by_col =
     map (\<lambda>k. (k, of_int (now - Max (date ` {r \<in> set data. by_col r = k})) / of_int ns_per_day))
       (sorted_list_of_set (by_col ` set data))"
proof (intro conjI impI)
  assume "mset data' = mset data"
  then have "set data' = set data" by (rule mset_eq_setD)
  then show "get_ages now data' by_col = get_ages now data by_col"
    by (simp add: get_ages_set)
next
  assume le: "\<forall>r\<in>set data. date r \<le> now"
  have "0 \<le> (of_int (now - Max (date ` {r' \<in> set data. by_col r' = k})) :: rat) / of_int ns_per_day"
    if k: "k \<in> by_col ` set data" for k
  proof -
    let ?S = "date ` {r' \<in> set data. by_col r' = k}"
    have "finite ?S" by simp
    moreover from k have "?S \<noteq> {}" by auto
    ultimately have "Max ?S \<in> ?S" by (rule Max_in)
    with le have "Max ?S \<le> now" by auto
    then show ?thesis
      by (simp add: ns_per_day_def)
  qed
  then show "\<forall>(k, age) \<in> set (get_ages now data by_col). 0 \<le> age"
    by (auto simp: get_ages_set)
next
  show "get_ages now data by_col =
     map (\<lambda>k. (k, of_int (now - Max (date ` {r \<in> set data. by_col r = k})) / of_int ns_per_day))
       (sorted_list_of_set (by_col ` set data))"
    by (rule get_ages_set)
qed

theorem get_ages_spec_witness:
  "mset ages_log_reordered = mset ages_log \<and>
   get_ages (4 * ns_per_day) ages_log_reordered path = get_ages (4 * ns_per_day) ages_log path \<and>
   get_ages (4 * ns_per_day) ages_log path = [(''a'', 1), (''b'', 2)] \<and>
   list_all (\<lambda>r. date r \<le> 4 * ns_per_day) ages_log"
  using get_ages_spec [of ages_log_reordered ages_log "4 * ns_per_day" path]
  by (simp add: get_ages_def groupby_max_def ages_log_def ages_log_reordered_def dated_row_def log_row_def ns_per_day_def less_char_def less_eq_char_def)

section \<open>Properties of the hot spots\<close>

text \<open>
  The change count of a key: the number of distinct change units among its log rows.
\<close>

lemma count_changes:
  "count_list (map snd (drop_duplicates (map (\<lambda>e. (per e, by_col e)) log_df))) k =
     card (per ` {e \<in> set log_df. by_col e = k})"
proof -
  let ?ps = "drop_duplicates (map (\<lambda>e. (per e, by_col e)) log_df)"
  have "distinct (map (\<lambda>p. (snd p, fst p)) ?ps)"
    using distinct_drop_duplicates [of "map (\<lambda>e. (per e, by_col e)) log_df"]
    by (auto simp: distinct_map inj_on_def)
  then have "length (filter (\<lambda>p. snd p = k) ?ps) = card (fst ` {p \<in> set ?ps. snd p = k})"
    by (rule length_filter_distinct_key)
  moreover have "fst ` {p \<in> set ?ps. snd p = k} = per ` {e \<in> set log_df. by_col e = k}"
    by (force simp: set_drop_duplicates)
  moreover have "count_list (map snd ?ps) k = length (filter (\<lambda>p. snd p = k) ?ps)"
    by (simp add: count_list_eq_length_filter filter_map comp_def eq_commute)
  ultimately show ?thesis by simp
qed

lemma set_get_hot_spots:
  "set (get_hot_spots log_df loc by_col per) =
     {(k, Some x, lines, int (card (per ` {e \<in> set log_df. by_col e = k}))) | k lines x.
        (k, lines, x) \<in> set loc} \<union>
     {(k, None, 0, int (card (per ` {e \<in> set log_df. by_col e = k}))) | k.
        k \<in> by_col ` set log_df \<and> k \<notin> fst ` set loc}"
  (is "?L = ?A \<union> ?B")
proof -
  let ?ch = "value_counts (map snd (drop_duplicates (map (\<lambda>e. (per e, by_col e)) log_df)))"
  let ?n = "\<lambda>k. card (per ` {e \<in> set log_df. by_col e = k})"
  have ch: "set ?ch = {(k, ?n k) | k. k \<in> by_col ` set log_df}"
    by (force simp: set_value_counts count_changes set_drop_duplicates)
  have keys: "fst ` set ?ch = by_col ` set log_df"
    unfolding ch by force
  have zero: "?n k = 0" if "k \<notin> by_col ` set log_df" for k
  proof -
    from that have "{e \<in> set log_df. by_col e = k} = {}" by auto
    then show ?thesis by simp
  qed
  have L: "?L = fillna ` set (merge_outer fst fst loc ?ch)"
    by (simp add: get_hot_spots_def Let_def)
  show ?thesis
  proof (intro set_eqI iffI)
    fix row assume "row \<in> ?L"
    then obtain k l r where m: "(k, l, r) \<in> set (merge_outer fst fst loc ?ch)"
      and row: "row = fillna (k, l, r)"
      unfolding L by auto
    from m consider
        (both) a b where "k = fst a" "l = Some a" "r = Some b" "a \<in> set loc" "b \<in> set ?ch" "fst b = fst a"
      | (left) a where "k = fst a" "l = Some a" "r = None" "a \<in> set loc" "fst a \<notin> fst ` set ?ch"
      | (right) b where "k = fst b" "l = None" "r = Some b" "b \<in> set ?ch" "fst b \<notin> fst ` set loc"
      unfolding set_merge_outer by blast
    then show "row \<in> ?A \<union> ?B"
    proof cases
      case both
      from both(5) obtain k' where b: "b = (k', ?n k')" unfolding ch by auto
      obtain ka lines x where a: "a = (ka, lines, x)" by (cases a)
      from both a b row show ?thesis by (auto simp: fillna_def)
    next
      case left
      obtain ka lines x where a: "a = (ka, lines, x)" by (cases a)
      from left(5) have "?n (fst a) = 0" unfolding keys by (rule zero)
      with left a row show ?thesis by (auto simp: fillna_def)
    next
      case right
      from right(4) obtain k' where b: "b = (k', ?n k')" and k': "k' \<in> by_col ` set log_df"
        unfolding ch by auto
      from right b k' row show ?thesis by (auto simp: fillna_def)
    qed
  next
    fix row assume "row \<in> ?A \<union> ?B"
    then consider (A) k lines x where "row = (k, Some x, lines, int (?n k))" "(k, lines, x) \<in> set loc"
      | (B) k where "row = (k, None, 0, int (?n k))" "k \<in> by_col ` set log_df" "k \<notin> fst ` set loc"
      by blast
    then show "row \<in> ?L"
    proof cases
      case A
      show ?thesis
      proof (cases "k \<in> by_col ` set log_df")
        case True
        then have "(k, ?n k) \<in> set ?ch" unfolding ch by auto
        with A(2) have "(k, Some (k, lines, x), Some (k, ?n k)) \<in> set (merge_outer fst fst loc ?ch)"
          unfolding set_merge_outer by force
        moreover have "row = fillna (k, Some (k, lines, x), Some (k, ?n k))"
          by (simp add: A(1) fillna_def)
        ultimately show ?thesis unfolding L by (rule rev_image_eqI)
      next
        case False
        then have "k \<notin> fst ` set ?ch" unfolding keys .
        with A(2) have "(k, Some (k, lines, x), None) \<in> set (merge_outer fst fst loc ?ch)"
          unfolding set_merge_outer by force
        moreover from False have "?n k = 0" by (rule zero)
        then have "row = fillna (k, Some (k, lines, x), None)"
          by (simp add: A(1) fillna_def)
        ultimately show ?thesis unfolding L by (rule rev_image_eqI)
      qed
    next
      case B
      then have "(k, ?n k) \<in> set ?ch" unfolding ch by auto
      with B(3) have "(k, None, Some (k, ?n k)) \<in> set (merge_outer fst fst loc ?ch)"
        unfolding set_merge_outer by force
      moreover have "row = fillna (k, None, Some (k, ?n k))"
        by (simp add: B(1) fillna_def)
      ultimately show ?thesis unfolding L by (rule rev_image_eqI)
    qed
  qed
qed

lemma card_no_rows:
  "k \<notin> by_col ` set log_df \<Longrightarrow> card (per ` {e \<in> set log_df. by_col e = k}) = 0"
proof -
  assume "k \<notin> by_col ` set log_df"
  then have "{e \<in> set log_df. by_col e = k} = {}" by auto
  then show ?thesis by simp
qed

lemma get_hot_spots_keys:
  "fst ` set (get_hot_spots log_df loc by_col per) = fst ` set loc \<union> by_col ` set log_df"
proof (intro set_eqI iffI)
  fix k assume "k \<in> fst ` set (get_hot_spots log_df loc by_col per)"
  then obtain row where row: "row \<in> set (get_hot_spots log_df loc by_col per)" and k: "k = fst row"
    by auto
  from row consider
      (A) k' lines x where "row = (k', Some x, lines, int (card (per ` {e \<in> set log_df. by_col e = k'})))"
        "(k', lines, x) \<in> set loc"
    | (B) k' where "row = (k', None, 0, int (card (per ` {e \<in> set log_df. by_col e = k'})))"
        "k' \<in> by_col ` set log_df"
    unfolding set_get_hot_spots by blast
  then show "k \<in> fst ` set loc \<union> by_col ` set log_df"
  proof cases
    case A
    from A(2) have "fst (k', lines, x) \<in> fst ` set loc" by (rule imageI)
    with A(1) k show ?thesis by simp
  next
    case B
    with k show ?thesis by simp
  qed
next
  fix k assume k: "k \<in> fst ` set loc \<union> by_col ` set log_df"
  let ?n = "int (card (per ` {e \<in> set log_df. by_col e = k}))"
  show "k \<in> fst ` set (get_hot_spots log_df loc by_col per)"
  proof (cases "k \<in> fst ` set loc")
    case True
    then obtain lines x where "(k, lines, x) \<in> set loc" by force
    then have "(k, Some x, lines, ?n) \<in> set (get_hot_spots log_df loc by_col per)"
      unfolding set_get_hot_spots by blast
    then have "fst (k, Some x, lines, ?n) \<in> fst ` set (get_hot_spots log_df loc by_col per)"
      by (rule imageI)
    then show ?thesis by simp
  next
    case False
    with k have "k \<in> by_col ` set log_df" by simp
    with False have "(k, None, 0, ?n) \<in> set (get_hot_spots log_df loc by_col per)"
      unfolding set_get_hot_spots by blast
    then show ?thesis by (rule rev_image_eqI) simp
  qed
qed

lemma get_hot_spots_fill:
  assumes "(k, x, lines, changes) \<in> set (get_hot_spots log_df loc by_col per)"
  shows "(k \<notin> by_col ` set log_df \<longrightarrow> changes = 0) \<and>
         (k \<notin> fst ` set loc \<longrightarrow> lines = 0 \<and> x = None)"
proof -
  from assms consider
      (A) "x \<noteq> None" "changes = int (card (per ` {e \<in> set log_df. by_col e = k}))"
        "\<exists>y. (k, lines, y) \<in> set loc"
    | (B) "x = None" "lines = 0" "changes = int (card (per ` {e \<in> set log_df. by_col e = k}))"
        "k \<in> by_col ` set log_df"
    unfolding set_get_hot_spots by blast
  then show ?thesis
  proof cases
    case A
    from A(3) obtain y where "(k, lines, y) \<in> set loc" ..
    then have "fst (k, lines, y) \<in> fst ` set loc" by (rule imageI)
    then have "k \<in> fst ` set loc" by simp
    with A(2) show ?thesis by (simp add: card_no_rows)
  next
    case B
    then show ?thesis by simp
  qed
qed

text \<open>
  Claim C9. The rows of \<open>get_hot_spots\<close> are: every row of the size table, with the
  number of changes of its key in the log (zero when the log has no row of that key);
  and one row for every key of the log that the size table lacks, with zero lines. So
  the keys of the result are the keys of the size table together with the keys of the
  log, and a count missing on either side is filled with zero.
\<close>

theorem get_hot_spots_spec:
  "set (get_hot_spots log_df loc by_col per) =
     {(k, Some x, lines, int (card (per ` {e \<in> set log_df. by_col e = k}))) | k lines x.
        (k, lines, x) \<in> set loc} \<union>
     {(k, None, 0, int (card (per ` {e \<in> set log_df. by_col e = k}))) | k.
        k \<in> by_col ` set log_df \<and> k \<notin> fst ` set loc} \<and>
   fst ` set (get_hot_spots log_df loc by_col per) = fst ` set loc \<union> by_col ` set log_df \<and>
   (\<forall>(k, x, lines, changes) \<in> set (get_hot_spots log_df loc by_col per).
      (k \<notin> by_col ` set log_df \<longrightarrow> changes = 0) \<and>
      (k \<notin> fst ` set loc \<longrightarrow> lines = 0 \<and> x = None))"
proof (intro conjI ballI)
  show "set (get_hot_spots log_df loc by_col per) =
     {(k, Some x, lines, int (card (per ` {e \<in> set log_df. by_col e = k}))) | k lines x.
        (k, lines, x) \<in> set loc} \<union>
     {(k, None, 0, int (card (per ` {e \<in> set log_df. by_col e = k}))) | k.
        k \<in> by_col ` set log_df \<and> k \<notin> fst ` set loc}"
    by (rule set_get_hot_spots)
  show "fst ` set (get_hot_spots log_df loc by_col per) = fst ` set loc \<union> by_col ` set log_df"
    by (rule get_hot_spots_keys)
next
  fix row assume row: "row \<in> set (get_hot_spots log_df loc by_col per)"
  obtain k x lines changes where "row = (k, x, lines, changes)" by (cases row)
  with row get_hot_spots_fill [of k x lines changes log_df loc by_col per]
  show "case row of (k, x, lines, changes) \<Rightarrow>
      (k \<notin> by_col ` set log_df \<longrightarrow> changes = 0) \<and>
      (k \<notin> fst ` set loc \<longrightarrow> lines = 0 \<and> x = None)"
    by simp
qed

theorem get_hot_spots_spec_witness:
  "get_hot_spots scenario_log scenario_loc path revision =
     [(''a'', Some ''Python'', 10, 2), (''b'', None, 0, 2), (''c'', None, 0, 2),
      (''z'', Some ''Python'', 5, 0)] \<and>
   fst ` set scenario_loc \<union> path ` set scenario_log =
     fst ` set (get_hot_spots scenario_log scenario_loc path revision) \<and>
   ''z'' \<notin> path ` set scenario_log \<and> ''b'' \<notin> fst ` set scenario_loc"
proof -
  have e: "get_hot_spots scenario_log scenario_loc path revision =
     [(''a'', Some ''Python'', 10, 2), (''b'', None, 0, 2), (''c'', None, 0, 2),
      (''z'', Some ''Python'', 5, 0)]"
    by (simp add: get_hot_spots_def merge_outer_def value_counts_def fillna_def
        scenario_log_def scenario_loc_def log_row_def string_le)
  have z: "''z'' \<notin> path ` set scenario_log"
    by (simp add: scenario_log_def log_row_def)
  have b: "''b'' \<notin> fst ` set scenario_loc"
    by (simp add: scenario_loc_def)
  from get_hot_spots_spec [of scenario_log scenario_loc path revision]
  have "fst ` set (get_hot_spots scenario_log scenario_loc path revision) =
        fst ` set scenario_loc \<union> path ` set scenario_log"
    by blast
  with e z b show ?thesis by simp
qed

section \<open>Properties of the co-changes\<close>

text \<open>
  In the self-join of a table without repeated rows, a pair (a, b) occurs at most as
  often as the pair (a, a).
\<close>

lemma pair_count_le:
  assumes "distinct df"
  shows "length (filter (\<lambda>j. (\<lambda>((o1, p), (o2, q)). (p, q)) j = (a, b)) (merge_inner fst fst df df))
       \<le> length (filter (\<lambda>j. (\<lambda>((o1, p), (o2, q)). (p, q)) j = (a, a)) (merge_inner fst fst df df))"
  unfolding length_filter_merge_inner
proof (rule sum_list_mono)
  fix l assume l: "l \<in> set df"
  obtain o1 p where lp: "l = (o1, p)" by (cases l)
  have eq: "(\<lambda>r. fst r = fst l \<and> (\<lambda>((o1, p), (o2, q)). (p, q)) (l, r) = (a, c)) =
            (\<lambda>r. p = a \<and> r = (o1, c))" for c
    by (auto simp: lp fun_eq_iff)
  show "length (filter (\<lambda>r. fst r = fst l \<and> (\<lambda>((o1, p), (o2, q)). (p, q)) (l, r) = (a, b)) df)
      \<le> length (filter (\<lambda>r. fst r = fst l \<and> (\<lambda>((o1, p), (o2, q)). (p, q)) (l, r) = (a, a)) df)"
  proof (cases "p = a")
    case True
    with l lp have "(o1, a) \<in> set df" by simp
    with True assms show ?thesis
      unfolding eq by (simp add: length_filter_eq_distinct)
  next
    case False
    then show ?thesis unfolding eq by simp
  qed
qed

lemma pair_count_pos:
  assumes "j \<in> set js" and "f j = k"
  shows "0 < length (filter (\<lambda>j. f j = k) js)"
  using assms by (auto simp: length_greater_0_conv filter_empty_conv)

lemma get_co_changes_rows:
  assumes "(p, d, changes, cochanges, coupling) \<in> set (get_co_changes log_df by_col on_col)"
  shows "p \<noteq> d \<and> cochanges \<le> changes \<and> 0 < changes \<and>
         coupling = of_nat cochanges / of_nat changes"
proof -
  let ?df = "drop_duplicates (map (\<lambda>e. (on_col e, by_col e)) log_df)"
  let ?g = "\<lambda>((o1, p), (o2, q)). (p, q)"
  let ?js = "merge_inner fst fst ?df ?df"
  let ?sj = "groupby_count ?g ?js"
  let ?cnt = "\<lambda>k. length (filter (\<lambda>j. ?g j = k) ?js)"
  from assms have sj: "((p, p), changes) \<in> set ?sj" "((p, d), cochanges) \<in> set ?sj"
    and rest: "p \<noteq> d" "coupling = of_nat cochanges / of_nat changes"
    by (auto simp: get_co_changes_def Let_def set_merge_inner)
  from sj have vals: "changes = ?cnt (p, p)" "cochanges = ?cnt (p, d)"
    and in_a: "(p, p) \<in> ?g ` set ?js"
    by (auto simp: set_groupby_count)
  have "?cnt (p, d) \<le> ?cnt (p, p)"
    by (rule pair_count_le) (rule distinct_drop_duplicates)
  moreover from in_a obtain j where "j \<in> set ?js" "?g j = (p, p)" by auto
  then have "0 < ?cnt (p, p)" by (rule pair_count_pos)
  ultimately show ?thesis using vals rest by simp
qed

lemma get_co_changes_sorted:
  "sorted_wrt (\<lambda>r s. snd (snd (snd (snd s))) \<le> snd (snd (snd (snd r))))
     (get_co_changes log_df by_col on_col)"
proof -
  let ?k = "\<lambda>(p, q, changes, cochanges, coupling :: rat). - coupling"
  have "sorted (map ?k (get_co_changes log_df by_col on_col))"
    unfolding get_co_changes_def Let_def by (rule sorted_sort_key)
  then have "sorted_wrt (\<lambda>r s. ?k r \<le> ?k s) (get_co_changes log_df by_col on_col)"
    by (simp add: sorted_wrt_map)
  then show ?thesis
    by (rule sorted_wrt_mono_rel [rotated]) auto
qed

text \<open>
  Claim C2. No row of \<open>get_co_changes\<close> has its primary equal to its dependency; in
  every row \<open>cochanges\<close> is at most \<open>changes\<close> (and \<open>changes\<close> is positive, \<open>coupling\<close>
  being their quotient); and the rows are in descending order of \<open>coupling\<close>.
\<close>

theorem get_co_changes_spec:
  "(\<forall>(p, d, changes, cochanges, coupling) \<in> set (get_co_changes log_df by_col on_col).
      p \<noteq> d \<and> cochanges \<le> changes \<and> 0 < changes \<and>
      coupling = of_nat cochanges / of_nat changes) \<and>
   sorted_wrt (\<lambda>r s. snd (snd (snd (snd s))) \<le> snd (snd (snd (snd r))))
     (get_co_changes log_df by_col on_col)"
proof (intro conjI ballI)
  fix row assume row: "row \<in> set (get_co_changes log_df by_col on_col)"
  obtain p d changes cochanges coupling where "row = (p, d, changes, cochanges, coupling)"
    by (cases row)
  with row get_co_changes_rows [of p d changes cochanges coupling log_df by_col on_col]
  show "case row of (p, d, changes, cochanges, coupling) \<Rightarrow>
      p \<noteq> d \<and> cochanges \<le> changes \<and> 0 < changes \<and>
      coupling = of_nat cochanges / of_nat changes"
    by simp
next
  show "sorted_wrt (\<lambda>r s. snd (snd (snd (snd s))) \<le> snd (snd (snd (snd r))))
     (get_co_changes log_df by_col on_col)"
    by (rule get_co_changes_sorted)
qed

lemma scenario_co_changes:
  "get_co_changes scenario_log path revision =
     [(''a'', ''b'', 2, 2, 1), (''b'', ''a'', 2, 2, 1), (''a'', ''c'', 2, 1, 1 / 2),
      (''b'', ''c'', 2, 1, 1 / 2), (''c'', ''a'', 2, 1, 1 / 2), (''c'', ''b'', 2, 1, 1 / 2)]"
  by (simp add: get_co_changes_def scenario_log_def log_row_def groupby_count_def
      merge_inner_def string_le)

theorem get_co_changes_spec_witness:
  "get_co_changes scenario_log path revision =
     [(''a'', ''b'', 2, 2, 1), (''b'', ''a'', 2, 2, 1), (''a'', ''c'', 2, 1, 1 / 2),
      (''b'', ''c'', 2, 1, 1 / 2), (''c'', ''a'', 2, 1, 1 / 2), (''c'', ''b'', 2, 1, 1 / 2)] \<and>
   sorted_wrt (\<lambda>r s. snd (snd (snd (snd s))) \<le> snd (snd (snd (snd r))))
     (get_co_changes scenario_log path revision)"
  using get_co_changes_spec [of scenario_log path revision]
  by (simp add: scenario_co_changes)

text \<open>
  Claim C3. On the log where revision 1 touches a, b, c, revision 2 touches a, b and
  revision 3 touches c, the result has the row (a, b) with 2 changes, 2 cochanges and
  coupling 1, and the row (a, c) with 2 changes, 1 cochange and coupling 1/2.
\<close>

theorem get_co_changes_scenario:
  "(''a'', ''b'', 2, 2, 1) \<in> set (get_co_changes scenario_log path revision) \<and>
   (''a'', ''c'', 2, 1, 1 / 2) \<in> set (get_co_changes scenario_log path revision)"
  by (simp add: scenario_co_changes)

section \<open>The reports and the tables they are given\<close>

text \<open>
  Whatever the store and the arguments, and whether the report returns or raises: the
  store after the call begins with the store before it, and a returned address is one
  that did not exist before the call.
\<close>

lemma get_mass_change_sets_call_frame:
  "take (length s) (fst (get_mass_change_sets_call log_a k s)) = s \<and>
   (\<forall>r. snd (get_mass_change_sets_call log_a k s) = Inr r \<longrightarrow>
      length s \<le> r \<and> r < length (fst (get_mass_change_sets_call log_a k s)))"
  by (auto simp: get_mass_change_sets_call_def seq_def frame_at_def new_object_def in_place_def
      nth_append split: sum.splits prod.splits)

lemma get_ages_call_frame:
  "take (length s) (fst (get_ages_call now data_a by_cols s)) = s \<and>
   (\<forall>r. snd (get_ages_call now data_a by_cols s) = Inr r \<longrightarrow>
      length s \<le> r \<and> r < length (fst (get_ages_call now data_a by_cols s)))"
  by (auto simp: get_ages_call_def seq_def frame_at_def new_object_def in_place_def
      nth_append split: sum.splits prod.splits)

lemma get_hot_spots_call_frame:
  "take (length s) (fst (get_hot_spots_call log_a loc_a by_col per s)) = s \<and>
   (\<forall>r. snd (get_hot_spots_call log_a loc_a by_col per s) = Inr r \<longrightarrow>
      length s \<le> r \<and> r < length (fst (get_hot_spots_call log_a loc_a by_col per s)))"
  by (auto simp: get_hot_spots_call_def seq_def frame_at_def new_object_def in_place_def
      nth_append split: sum.splits prod.splits)

lemma get_co_changes_call_frame:
  "take (length s) (fst (get_co_changes_call log_a by_col on_col s)) = s \<and>
   (\<forall>r. snd (get_co_changes_call log_a by_col on_col s) = Inr r \<longrightarrow>
      length s \<le> r \<and> r < length (fst (get_co_changes_call log_a by_col on_col s)))"
  by (auto simp: get_co_changes_call_def seq_def frame_at_def new_object_def in_place_def
      nth_append split: sum.splits prod.splits)

text \<open>
  The steps that work in place are no identities on a log table: aimed at an input they
  would change it. Renaming \<open>path\<close> gives other column names, and resetting the index and
  assigning \<open>age\<close> add a column.
\<close>

lemma in_place_steps_change_a_log:
  "rename_columns [(''path'', ''path_count'')] (log_frame log_df) \<noteq> log_frame log_df \<and>
   reset_index_frame (log_frame log_df) \<noteq> Inr (log_frame log_df) \<and>
   set_age now (log_frame log_df) \<noteq> Inr (log_frame log_df)"
proof -
  have "columns (rename_columns [(''path'', ''path_count'')] (log_frame log_df)) \<noteq>
        columns (log_frame log_df)"
    by (simp add: rename_columns_def log_frame_def)
  then have a: "rename_columns [(''path'', ''path_count'')] (log_frame log_df) \<noteq> log_frame log_df"
    by auto
  have b: "reset_index_frame (log_frame log_df) \<noteq> Inr (log_frame log_df)"
    by (simp add: reset_index_frame_def log_frame_def)
  have c: "set_age now (log_frame log_df) \<noteq> Inr (log_frame log_df)"
    by (simp add: set_age_def assign_column_def log_frame_def)
  from a b c show ?thesis by simp
qed

text \<open>
  Claim C10. For every store and every input table in it, each of
  \<open>get_mass_change_sets\<close>, \<open>get_ages\<close>, \<open>get_hot_spots\<close> and \<open>get_co_changes\<close> leaves every
  table of the store, its inputs among them, as it was before the call, and the table
  it returns is at an address that did not exist before the call.
\<close>

theorem reports_leave_inputs_unchanged:
  "take (length s) (fst (get_mass_change_sets_call log_a k s)) = s \<and>
   (log_a < length s \<longrightarrow> fst (get_mass_change_sets_call log_a k s) ! log_a = s ! log_a) \<and>
   (\<forall>r. snd (get_mass_change_sets_call log_a k s) = Inr r \<longrightarrow>
      length s \<le> r \<and> r < length (fst (get_mass_change_sets_call log_a k s))) \<and>
   take (length s) (fst (get_ages_call now log_a by_cols s)) = s \<and>
   (log_a < length s \<longrightarrow> fst (get_ages_call now log_a by_cols s) ! log_a = s ! log_a) \<and>
   (\<forall>r. snd (get_ages_call now log_a by_cols s) = Inr r \<longrightarrow>
      length s \<le> r \<and> r < length (fst (get_ages_call now log_a by_cols s))) \<and>
   take (length s) (fst (get_hot_spots_call log_a loc_a by_col per s)) = s \<and>
   (log_a < length s \<longrightarrow> fst (get_hot_spots_call log_a loc_a by_col per s) ! log_a = s ! log_a) \<and>
   (loc_a < length s \<longrightarrow> fst (get_hot_spots_call log_a loc_a by_col per s) ! loc_a = s ! loc_a) \<and>
   (\<forall>r. snd (get_hot_spots_call log_a loc_a by_col per s) = Inr r \<longrightarrow>
      length s \<le> r \<and> r < length (fst (get_hot_spots_call log_a loc_a by_col per s))) \<and>
   take (length s) (fst (get_co_changes_call log_a by_col on_col s)) = s \<and>
   (log_a < length s \<longrightarrow> fst (get_co_changes_call log_a by_col on_col s) ! log_a = s ! log_a) \<and>
   (\<forall>r. snd (get_co_changes_call log_a by_col on_col s) = Inr r \<longrightarrow>
      length s \<le> r \<and> r < length (fst (get_co_changes_call log_a by_col on_col s)))"
proof -
  have nth: "s' ! a = s ! a" if "take (length s) s' = s" and "a < length s" for s' a
  proof -
    from that have "s ! a = take (length s) s' ! a" by simp
    also from that(2) have "\<dots> = s' ! a" by simp
    finally show ?thesis by simp
  qed
  note m = get_mass_change_sets_call_frame [of s log_a k]
  note a = get_ages_call_frame [of s now log_a by_cols]
  note h = get_hot_spots_call_frame [of s log_a loc_a by_col per]
  note c = get_co_changes_call_frame [of s log_a by_col on_col]
  from m a h c nth [of "fst (get_mass_change_sets_call log_a k s)"]
    nth [of "fst (get_ages_call now log_a by_cols s)"]
    nth [of "fst (get_hot_spots_call log_a loc_a by_col per s)"]
    nth [of "fst (get_co_changes_call log_a by_col on_col s)"]
  show ?thesis by blast
qed

text \<open>
  On the scenario store every call returns at a new address, and the cells of the table
  returned are those of the rows that the report gives for the scenario log above. The
  size table may be the log table itself.
\<close>

lemma scenario_calls:
  "snd (get_mass_change_sets_call 0 2 scenario_store) = Inr 3"
  "map snd (body (fst (get_mass_change_sets_call 0 2 scenario_store) ! 3)) =
     [[CStr ''1'', CInt 3, CStr ''fix'', CStr ''bob'']]"
  "snd (get_ages_call 1546387200000000000 0 [''path''] scenario_store) = Inr 3"
  "map snd (body (fst (get_ages_call 1546387200000000000 0 [''path''] scenario_store) ! 3)) =
     [[CStr ''a'', CRat 1], [CStr ''b'', CRat 1], [CStr ''c'', CRat 1]]"
  "snd (get_hot_spots_call 0 1 ''path'' [''revision''] scenario_store) = Inr 5"
  "map snd (body (fst (get_hot_spots_call 0 1 ''path'' [''revision''] scenario_store) ! 5)) =
     [[CStr ''Python'', CStr ''a'', CInt 10, CInt 2], [CRat 0, CStr ''b'', CRat 0, CInt 2],
      [CRat 0, CStr ''c'', CRat 0, CInt 2], [CStr ''Python'', CStr ''z'', CInt 5, CRat 0]]"
  "snd (get_hot_spots_call 0 0 ''path'' [''revision''] scenario_store) = Inr 5"
  "snd (get_co_changes_call 0 ''path'' ''revision'' scenario_store) = Inr 5"
  "map snd (body (fst (get_co_changes_call 0 ''path'' ''revision'' scenario_store) ! 5)) =
     [[CStr ''a'', CStr ''b'', CInt 2, CInt 2, CRat 1],
      [CStr ''b'', CStr ''a'', CInt 2, CInt 2, CRat 1],
      [CStr ''a'', CStr ''c'', CInt 2, CInt 1, CRat (1 / 2)],
      [CStr ''b'', CStr ''c'', CInt 2, CInt 1, CRat (1 / 2)],
      [CStr ''c'', CStr ''a'', CInt 2, CInt 1, CRat (1 / 2)],
      [CStr ''c'', CStr ''b'', CInt 2, CInt 1, CRat (1 / 2)]]"
  by code_simp+

theorem reports_leave_inputs_unchanged_witness:
  "length scenario_store = 2 \<and>
   snd (get_mass_change_sets_call 0 2 scenario_store) = Inr 3 \<and>
   take 2 (fst (get_mass_change_sets_call 0 2 scenario_store)) = scenario_store \<and>
   fst (get_mass_change_sets_call 0 2 scenario_store) ! 0 = log_frame scenario_log \<and>
   snd (get_ages_call 1546387200000000000 0 [''path''] scenario_store) = Inr 3 \<and>
   take 2 (fst (get_ages_call 1546387200000000000 0 [''path''] scenario_store)) = scenario_store \<and>
   snd (get_hot_spots_call 0 1 ''path'' [''revision''] scenario_store) = Inr 5 \<and>
   take 2 (fst (get_hot_spots_call 0 1 ''path'' [''revision''] scenario_store)) = scenario_store \<and>
   snd (get_hot_spots_call 0 0 ''path'' [''revision''] scenario_store) = Inr 5 \<and>
   take 2 (fst (get_hot_spots_call 0 0 ''path'' [''revision''] scenario_store)) = scenario_store \<and>
   snd (get_co_changes_call 0 ''path'' ''revision'' scenario_store) = Inr 5 \<and>
   take 2 (fst (get_co_changes_call 0 ''path'' ''revision'' scenario_store)) = scenario_store"
proof -
  have l: "length scenario_store = 2" and z: "scenario_store ! 0 = log_frame scenario_log"
    by (simp_all add: scenario_store_def)
  note r1 = reports_leave_inputs_unchanged [of scenario_store 0 2 1546387200000000000
      "[''path'']" 1 "''path''" "[''revision'']" "''revision''"]
  note r2 = reports_leave_inputs_unchanged [of scenario_store 0 2 1546387200000000000
      "[''path'']" 0 "''path''" "[''revision'']" "''revision''"]
  from r1 have a: "take 2 (fst (get_mass_change_sets_call 0 2 scenario_store)) = scenario_store"
    "fst (get_mass_change_sets_call 0 2 scenario_store) ! 0 = scenario_store ! 0"
    "take 2 (fst (get_ages_call 1546387200000000000 0 [''path''] scenario_store)) = scenario_store"
    "take 2 (fst (get_hot_spots_call 0 1 ''path'' [''revision''] scenario_store)) = scenario_store"
    "take 2 (fst (get_co_changes_call 0 ''path'' ''revision'' scenario_store)) = scenario_store"
    by (simp_all add: l)
  from r2 have b:
    "take 2 (fst (get_hot_spots_call 0 0 ''path'' [''revision''] scenario_store)) = scenario_store"
    by (simp add: l)
  from l z a b scenario_calls show ?thesis by simp
qed

end
